theory Spec2Isabelle
  imports Main
begin

section \<open>Strings\<close>

text \<open>
  A Python \<open>str\<close> is modelled as a \<open>string\<close>; a \<open>char\<close> stands for one code point
  below 256. \<open>isspace\<close> is Python's \<open>str.isspace\<close> on that range, which is also the
  class \<open>\s\<close> of the \<open>re\<close> module on \<open>str\<close> patterns and the set removed by
  \<open>str.strip()\<close>.
\<close>

abbreviation NL :: char where "NL \<equiv> CHR 0x0A"
abbreviation DQ :: char where "DQ \<equiv> CHR 0x22"
abbreviation SQ :: char where "SQ \<equiv> CHR 0x27"

abbreviation isnl :: "char \<Rightarrow> bool" where "isnl \<equiv> (\<lambda>c. c = NL)"

definition isspace :: "char \<Rightarrow> bool" where
  "isspace c = (c \<in> set [CHR 0x09, CHR 0x0A, CHR 0x0B, CHR 0x0C, CHR 0x0D, CHR 0x1C, CHR 0x1D,
                           CHR 0x1E, CHR 0x1F, CHR 0x20, CHR 0x85, CHR 0xA0])"

text \<open>\<open>s.strip()\<close>\<close>

definition py_strip :: "string \<Rightarrow> string" where
  "py_strip s = rev (dropWhile isspace (rev (dropWhile isspace s)))"

text \<open>\<open>s.startswith(p)\<close> and \<open>p in s\<close>\<close>

fun startswith :: "string \<Rightarrow> string \<Rightarrow> bool" where
  "startswith s [] = True"
| "startswith [] (p # ps) = False"
| "startswith (c # cs) (p # ps) = (c = p \<and> startswith cs ps)"

fun contains :: "string \<Rightarrow> string \<Rightarrow> bool" where
  "contains [] p = (p = [])"
| "contains (c # cs) p = (startswith (c # cs) p \<or> contains cs p)"

text \<open>
  \<open>s.replace(old, new)\<close>: the occurrences of \<open>old\<close> are replaced from the left, without
  overlap; with an empty \<open>old\<close>, \<open>new\<close> is put before every character and at the end.
\<close>

fun replace_from :: "nat \<Rightarrow> string \<Rightarrow> string \<Rightarrow> string \<Rightarrow> string" where
  "replace_from skip old new [] = []"
| "replace_from (Suc k) old new (c # cs) = replace_from k old new cs"
| "replace_from 0 old new (c # cs) =
     (if startswith (c # cs) old then new @ replace_from (length old - 1) old new cs
      else c # replace_from 0 old new cs)"

definition py_replace :: "string \<Rightarrow> string \<Rightarrow> string \<Rightarrow> string" where
  "py_replace s old new =
     (if old = [] then new @ concat (map (\<lambda>c. c # new) s) else replace_from 0 old new s)"

section \<open>The regular expressions of the scripts\<close>

text \<open>
  The patterns of \<open>migrate_wordpress.py\<close> and \<open>download_images.py\<close> are sequences of
  single-character atoms, each taken once, optionally (\<open>?\<close>), greedily at least \<open>n\<close> times
  (\<open>*\<close> is \<open>Rep 0\<close>, \<open>+\<close> is \<open>Rep 1\<close>, \<open>{3,}\<close> is \<open>Rep 3\<close>) or lazily (\<open>*?\<close>); a
  capturing group always encloses exactly one such item (\<open>G\<close>). \<open>AnyChar\<close> is \<open>.\<close> under
  \<open>re.DOTALL\<close>, the only way the scripts use it.
\<close>

datatype atom = Lit char | AnyChar | NoneOf string | OneOf string | Space

fun atom_ok :: "atom \<Rightarrow> char \<Rightarrow> bool" where
  "atom_ok (Lit d) c = (c = d)"
| "atom_ok AnyChar c = True"
| "atom_ok (NoneOf ds) c = (c \<notin> set ds)"
| "atom_ok (OneOf ds) c = (c \<in> set ds)"
| "atom_ok Space c = isspace c"

datatype quant = Once | Opt | Rep nat | Lazy

datatype item = I quant atom | G quant atom

fun qa :: "item \<Rightarrow> quant \<times> atom" where
  "qa (I q a) = (q, a)"
| "qa (G q a) = (q, a)"

definition lit :: "string \<Rightarrow> item list" where
  "lit s = map (\<lambda>c. I Once (Lit c)) s"

text \<open>
  The backtracking matcher, anchored at the start of \<open>s\<close>: the result is the number of
  characters each item consumed in the first match in the engine's priority order (a greedy
  item tries one more character before it tries to stop, a lazy one tries to stop first).
\<close>

fun rmatch :: "(quant \<times> atom) list \<Rightarrow> string \<Rightarrow> nat list option" where
  "rmatch [] s = Some []"
| "rmatch ((Once, a) # ps) s =
     (case s of [] \<Rightarrow> None
      | c # cs \<Rightarrow> if atom_ok a c then map_option ((#) 1) (rmatch ps cs) else None)"
| "rmatch ((Opt, a) # ps) s =
     (case (case s of [] \<Rightarrow> None
            | c # cs \<Rightarrow> if atom_ok a c then map_option ((#) 1) (rmatch ps cs) else None) of
        Some ns \<Rightarrow> Some ns
      | None \<Rightarrow> map_option ((#) 0) (rmatch ps s))"
| "rmatch ((Rep n, a) # ps) s =
     (case (case s of [] \<Rightarrow> None
            | c # cs \<Rightarrow> if atom_ok a c then rmatch ((Rep (n - 1), a) # ps) cs else None) of
        Some (k # ns) \<Rightarrow> Some (Suc k # ns)
      | _ \<Rightarrow> if n = 0 then map_option ((#) 0) (rmatch ps s) else None)"
| "rmatch ((Lazy, a) # ps) s =
     (case rmatch ps s of
        Some ns \<Rightarrow> Some (0 # ns)
      | None \<Rightarrow>
         (case s of [] \<Rightarrow> None
          | c # cs \<Rightarrow>
              if atom_ok a c
              then (case rmatch ((Lazy, a) # ps) cs of
                      Some (k # ns) \<Rightarrow> Some (Suc k # ns) | _ \<Rightarrow> None)
              else None))"

definition re_match :: "item list \<Rightarrow> string \<Rightarrow> nat list option" where
  "re_match p s = rmatch (map qa p) s"

text \<open>The texts of the capturing groups, in order (\<open>m.group(1)\<close> is the first).\<close>

fun groups :: "item list \<Rightarrow> nat list \<Rightarrow> string \<Rightarrow> string list" where
  "groups (I q a # p) (n # ns) s = groups p ns (drop n s)"
| "groups (G q a # p) (n # ns) s = take n s # groups p ns (drop n s)"
| "groups p ns s = []"

fun grp :: "string list \<Rightarrow> nat \<Rightarrow> string" where
  "grp [] n = []"
| "grp (g # gs) n = (if n \<le> 1 then g else grp gs (n - 1))"

text \<open>
  \<open>re.sub(pattern, repl, s)\<close>: the string is scanned from the left; where the pattern
  matches, the match is replaced by \<open>repl\<close> applied to its groups and the scan goes on
  behind the match, elsewhere the character is kept. Every pattern of the scripts consumes at
  least one character, so the treatment of empty matches by \<open>re\<close> never comes into play: an
  empty match counts as no match here.
\<close>

function re_sub :: "item list \<Rightarrow> (string list \<Rightarrow> string) \<Rightarrow> string \<Rightarrow> string" where
  "re_sub p repl [] = []"
| "re_sub p repl (c # cs) =
     (case re_match p (c # cs) of
        None \<Rightarrow> c # re_sub p repl cs
      | Some ns \<Rightarrow>
          (case sum_list ns of
             0 \<Rightarrow> c # re_sub p repl cs
           | Suc k \<Rightarrow> repl (groups p ns (c # cs)) @ re_sub p repl (drop k cs)))"
  by pat_completeness auto
termination
  by (relation "measure (\<lambda>(p, repl, s). length s)") auto

text \<open>\<open>[m.group(1) for m in re.finditer(pattern, s)]\<close>, scanning as \<open>re_sub\<close> does.\<close>

function finditer1 :: "item list \<Rightarrow> string \<Rightarrow> string list" where
  "finditer1 p [] = []"
| "finditer1 p (c # cs) =
     (case re_match p (c # cs) of
        None \<Rightarrow> finditer1 p cs
      | Some ns \<Rightarrow>
          (case sum_list ns of
             0 \<Rightarrow> finditer1 p cs
           | Suc k \<Rightarrow> grp (groups p ns (c # cs)) 1 # finditer1 p (drop k cs)))"
  by pat_completeness auto
termination
  by (relation "measure (\<lambda>(p, s). length s)") auto

text \<open>\<open>re.search(pattern, s) is not None\<close>: the pattern matches at some position of \<open>s\<close>.\<close>

fun re_search :: "item list \<Rightarrow> string \<Rightarrow> bool" where
  "re_search p [] = (re_match p [] \<noteq> None)"
| "re_search p (c # cs) = (re_match p (c # cs) \<noteq> None \<or> re_search p cs)"

section \<open>The markup transcoder: \<open>html_to_markdown\<close>\<close>

text \<open>The pattern \<open><[^>]+>\<close> by which the transcoder recognises a remaining tag.\<close>

definition any_tag :: "item list" where
  "any_tag = [I Once (Lit CHR ''<''), I (Rep 1) (NoneOf ''>''), I Once (Lit CHR ''>'')]"

text \<open>The opening tag \<open><name[^>]*>\<close> followed by \<open>(.*?)\<close> and the closing tag.\<close>

definition element :: "string \<Rightarrow> item list" where
  "element name =
     lit (''<'' @ name) @ [I (Rep 0) (NoneOf ''>''), I Once (Lit CHR ''>''), G Lazy AnyChar]
     @ lit (''</'' @ name @ ''>'')"

definition html_to_markdown :: "string \<Rightarrow> string" where
  "html_to_markdown html =
    (if html = [] then []
     else
      let md = html;
          md = re_sub (element ''h1'') (\<lambda>g. ''# '' @ grp g 1 @ [NL]) md;
          md = re_sub (element ''h2'') (\<lambda>g. ''## '' @ grp g 1 @ [NL]) md;
          md = re_sub (element ''h3'') (\<lambda>g. ''### '' @ grp g 1 @ [NL]) md;
          md = re_sub (element ''h4'') (\<lambda>g. ''#### '' @ grp g 1 @ [NL]) md;
          md = re_sub (element ''strong'') (\<lambda>g. ''**'' @ grp g 1 @ ''**'') md;
          md = re_sub (element ''b'') (\<lambda>g. ''**'' @ grp g 1 @ ''**'') md;
          md = re_sub (element ''em'') (\<lambda>g. ''*'' @ grp g 1 @ ''*'') md;
          md = re_sub (element ''i'') (\<lambda>g. ''*'' @ grp g 1 @ ''*'') md;
          md = re_sub (lit ''<a'' @ [I (Rep 0) (NoneOf ''>'')] @ lit ''href='' @ [I Once (Lit DQ),
                         G (Rep 0) (NoneOf [DQ]), I Once (Lit DQ), I (Rep 0) (NoneOf ''>''),
                         I Once (Lit CHR ''>''), G Lazy AnyChar] @ lit ''</a>'')
                 (\<lambda>g. ''['' @ grp g 2 @ '']('' @ grp g 1 @ '')'') md;
          md = re_sub (lit ''<img'' @ [I (Rep 0) (NoneOf ''>'')] @ lit ''src='' @ [I Once (Lit DQ),
                         G (Rep 0) (NoneOf [DQ]), I Once (Lit DQ), I (Rep 0) (NoneOf ''>'')]
                       @ lit ''alt='' @ [I Once (Lit DQ), G (Rep 0) (NoneOf [DQ]), I Once (Lit DQ),
                         I (Rep 0) (NoneOf ''>''), I Opt (Lit CHR ''/''), I Once (Lit CHR ''>'')])
                 (\<lambda>g. ''!['' @ grp g 2 @ '']('' @ grp g 1 @ '')'') md;
          md = re_sub (lit ''<img'' @ [I (Rep 0) (NoneOf ''>'')] @ lit ''src='' @ [I Once (Lit DQ),
                         G (Rep 0) (NoneOf [DQ]), I Once (Lit DQ), I (Rep 0) (NoneOf ''>''),
                         I Opt (Lit CHR ''/''), I Once (Lit CHR ''>'')])
                 (\<lambda>g. ''![]('' @ grp g 1 @ '')'') md;
          md = re_sub (lit ''<ul'' @ [I (Rep 0) (NoneOf ''>''), I Once (Lit CHR ''>'')]) (\<lambda>g. []) md;
          md = re_sub (lit ''</ul>'') (\<lambda>g. [NL]) md;
          md = re_sub (lit ''<ol'' @ [I (Rep 0) (NoneOf ''>''), I Once (Lit CHR ''>'')]) (\<lambda>g. []) md;
          md = re_sub (lit ''</ol>'') (\<lambda>g. [NL]) md;
          md = re_sub (element ''li'') (\<lambda>g. ''- '' @ grp g 1 @ [NL]) md;
          md = re_sub (lit ''<pre'' @ [I (Rep 0) (NoneOf ''>'')] @ lit ''><code''
                       @ [I (Rep 0) (NoneOf ''>''), I Once (Lit CHR ''>''), G Lazy AnyChar]
                       @ lit ''</code></pre>'')
                 (\<lambda>g. ''```'' @ [NL] @ grp g 1 @ [NL] @ ''```'' @ [NL]) md;
          md = re_sub (element ''code'') (\<lambda>g. ''`'' @ grp g 1 @ ''`'') md;
          md = re_sub (element ''blockquote'')
                 (\<lambda>g. ''> '' @ py_replace (py_strip (grp g 1)) [NL] (NL # ''> '') @ [NL]) md;
          md = re_sub (element ''p'') (\<lambda>g. grp g 1 @ [NL, NL]) md;
          md = re_sub (lit ''<br'' @ [I (Rep 0) Space, I Opt (Lit CHR ''/''), I Once (Lit CHR ''>'')])
                 (\<lambda>g. [NL]) md;
          md = re_sub (lit ''<hr'' @ [I (Rep 0) Space, I Opt (Lit CHR ''/''), I Once (Lit CHR ''>'')])
                 (\<lambda>g. NL # ''---'' @ [NL]) md;
          md = re_sub any_tag (\<lambda>g. []) md;
          md = re_sub [I (Rep 3) (Lit NL)] (\<lambda>g. [NL, NL]) md;
          md = py_strip md
      in md)"

section \<open>The parsed export\<close>

text \<open>
  The dictionaries that \<open>parse_wordpress_xml\<close> builds, with one field per key. A value that
  the parser takes from an element's \<open>.text\<close> or an attribute without a default can be
  \<open>None\<close>. A \<open>datetime\<close> is a point in time, counted in some fixed unit.
\<close>

type_synonym datetime = nat

record wp_tag =
  wt_term_id :: int
  wt_slug :: "string option"
  wt_name :: "string option"

record wp_author =
  wa_login :: "string option"
  wa_email :: string
  wa_display_name :: string

record wp_comment =
  wc_id :: int
  wc_parent :: int
  wc_author_name :: string
  wc_author_email :: string
  wc_content :: string
  wc_status :: string
  wc_created_at :: "datetime option"

record wp_post =
  wp_id :: int
  wp_title :: string
  wp_slug :: "string option"
  wp_content :: string
  wp_excerpt :: string
  wp_status :: string
  wp_author :: "string option"
  wp_published_at :: "datetime option"
  wp_tags :: "string option list"
  wp_comments :: "wp_comment list"

record wp_data =
  d_tags :: "wp_tag list"
  d_posts :: "wp_post list"
  d_authors :: "wp_author list"

section \<open>The store: the models of \<open>blog/models.py\<close>\<close>

text \<open>
  One record per model row, with the fields the scripts read or write; a foreign key holds
  the primary key of the row it points to, and the many-to-many field \<open>Post.tags\<close> the
  primary keys of the attached tags. The store holds the rows of each table and the next
  primary key of each.
\<close>

datatype PostStatus = DRAFT | SCHEDULED | PUBLISHED

datatype CommentStatus = PENDING | APPROVED | SPAM

record User =
  user_pk :: nat
  username :: string
  email :: string
  first_name :: string
  last_name :: string

record Tag =
  tag_pk :: nat
  tag_name :: string
  tag_slug :: string
  tag_wp_term_id :: "int option"

record Image =
  image_pk :: nat
  image_file :: string
  original_name :: string
  alt_text :: string

record Post =
  post_pk :: nat
  title :: string
  slug :: string
  content_md :: string
  content_html :: string
  excerpt :: string
  status :: PostStatus
  author :: nat
  featured_image :: "nat option"
  tags :: "nat list"
  published_at :: "datetime option"
  created_at :: datetime
  updated_at :: datetime
  wp_post_id :: "int option"

record Comment =
  comment_pk :: nat
  comment_post :: nat
  parent :: "nat option"
  author_name :: string
  author_email :: string
  content :: string
  comment_status :: CommentStatus
  comment_created_at :: datetime
  wp_comment_id :: "int option"

record store =
  User_objects :: "User list"
  Tag_objects :: "Tag list"
  Image_objects :: "Image list"
  Post_objects :: "Post list"
  Comment_objects :: "Comment list"
  next_user :: nat
  next_tag :: nat
  next_image :: nat
  next_post :: nat
  next_comment :: nat

text \<open>
  What lies outside the repository is a parameter: the clock (\<open>timezone.now()\<close>, one
  reading for a run), Django's \<open>slugify\<close>, and the Markdown renderer with the sanitizer
  behind \<open>Post._render_markdown\<close>.
\<close>

record env =
  now :: datetime
  slugify :: "string \<Rightarrow> string"
  render_markdown :: "string \<Rightarrow> string"

text \<open>
  The exceptions that the calls of the scripts can raise. \<open>MultipleObjectsReturned\<close> comes
  from a lookup by a key that several rows carry, \<open>IntegrityError\<close> from a \<open>unique=True\<close> or
  \<open>NOT NULL\<close> column. Length and range checks of the columns are not modelled.
\<close>

datatype error = MultipleObjectsReturned | IntegrityError | IndexError | AttributeError
  | ValueError | TypeError

subsection \<open>\<open>User.objects.get_or_create(username=..., defaults=...)\<close>\<close>

definition User_get_or_create ::
  "store \<Rightarrow> string option \<Rightarrow> string \<Rightarrow> string \<Rightarrow> string \<Rightarrow> error + (store \<times> nat \<times> bool)" where
  "User_get_or_create st uname mail fname lname =
     (case filter (\<lambda>u. Some (username u) = uname) (User_objects st) of
        [] \<Rightarrow>
          (case uname of
             None \<Rightarrow> Inl IntegrityError
           | Some n \<Rightarrow>
               Inr (st\<lparr>User_objects := User_objects st @
                          [\<lparr>user_pk = next_user st, username = n, email = mail,
                            first_name = fname, last_name = lname\<rparr>],
                        next_user := Suc (next_user st)\<rparr>,
                    next_user st, True))
      | [u] \<Rightarrow> Inr (st, user_pk u, False)
      | _ \<Rightarrow> Inl MultipleObjectsReturned)"

subsection \<open>\<open>Tag.save\<close> and \<open>Tag.objects.get_or_create(slug=..., defaults=...)\<close>\<close>

text \<open>
  \<open>Tag.save\<close> fills an empty slug from the name; the insert fails on a missing name and on
  a slug that another tag has.
\<close>

definition Tag_create ::
  "env \<Rightarrow> store \<Rightarrow> string option \<Rightarrow> string option \<Rightarrow> int \<Rightarrow> error + (store \<times> nat)" where
  "Tag_create e st sl nm tid =
     (case nm of
        None \<Rightarrow> Inl IntegrityError
      | Some n \<Rightarrow>
          (let s = (case sl of None \<Rightarrow> slugify e n
                    | Some x \<Rightarrow> if x = [] then slugify e n else x)
           in if list_ex (\<lambda>t. tag_slug t = s) (Tag_objects st) then Inl IntegrityError
              else Inr (st\<lparr>Tag_objects := Tag_objects st @
                              [\<lparr>tag_pk = next_tag st, tag_name = n, tag_slug = s,
                                tag_wp_term_id = Some tid\<rparr>],
                            next_tag := Suc (next_tag st)\<rparr>,
                        next_tag st)))"

definition Tag_get_or_create ::
  "env \<Rightarrow> store \<Rightarrow> string option \<Rightarrow> string option \<Rightarrow> int \<Rightarrow> error + (store \<times> nat \<times> bool)" where
  "Tag_get_or_create e st sl nm tid =
     (case filter (\<lambda>t. Some (tag_slug t) = sl) (Tag_objects st) of
        [] \<Rightarrow> (case Tag_create e st sl nm tid of
                 Inl err \<Rightarrow> Inl err
               | Inr (st', pk) \<Rightarrow> Inr (st', pk, True))
      | [t] \<Rightarrow> Inr (st, tag_pk t, False)
      | _ \<Rightarrow> Inl MultipleObjectsReturned)"

subsection \<open>\<open>Post.save\<close> and \<open>Post.objects.update_or_create(wp_post_id=..., defaults=...)\<close>\<close>

text \<open>\<open>str(n)\<close> of a counter.\<close>

function str_nat :: "nat \<Rightarrow> string" where
  "str_nat n =
     (if n < 10 then [char_of (48 + n)] else str_nat (n div 10) @ [char_of (48 + n mod 10)])"
  by pat_completeness auto
termination
  by (relation "measure id") auto

declare str_nat.simps [simp del]

text \<open>
  The loop of \<open>Post.save\<close> that looks for a free slug: after the first round its candidate
  is \<open>f"{base_slug}-{counter}"\<close>, and \<open>taken\<close> are the slugs of the other posts.
\<close>

function slug_loop :: "string list \<Rightarrow> string \<Rightarrow> nat \<Rightarrow> string" where
  "slug_loop taken base counter =
     (if base @ ''-'' @ str_nat counter \<in> set taken then slug_loop taken base (Suc counter)
      else base @ ''-'' @ str_nat counter)"
  by pat_completeness auto
termination
proof (relation "measure (\<lambda>(taken, base, counter).
          card {k. counter \<le> k \<and> base @ ''-'' @ str_nat k \<in> set taken})")
  show "wf (measure (\<lambda>(taken, base, counter).
          card {k. counter \<le> k \<and> base @ ''-'' @ str_nat k \<in> set taken}))"
    by simp
next
  fix taken :: "string list" and base :: string and counter :: nat
  assume mem: "base @ ''-'' @ str_nat counter \<in> set taken"
  let ?dec = "foldl (\<lambda>a c. 10 * a + (of_char c - 48)) (0::nat)"
  have dec: "?dec (str_nat n) = n" for n
  proof (induction n rule: str_nat.induct)
    case (1 n)
    show ?case
    proof (cases "n < 10")
      case True
      then show ?thesis by (subst str_nat.simps) simp
    next
      case False
      then have "?dec (str_nat n) = 10 * ?dec (str_nat (n div 10)) + n mod 10"
        by (subst str_nat.simps) simp
      then show ?thesis using 1 False by simp
    qed
  qed
  have inj: "inj (\<lambda>k. base @ ''-'' @ str_nat k)"
  proof (rule injI)
    fix x y
    assume "base @ ''-'' @ str_nat x = base @ ''-'' @ str_nat y"
    then have "str_nat x = str_nat y" by simp
    then have "?dec (str_nat x) = ?dec (str_nat y)" by simp
    then show "x = y" by (simp only: dec)
  qed
  let ?S = "\<lambda>c. {k. c \<le> k \<and> base @ ''-'' @ str_nat k \<in> set taken}"
  have "finite ((\<lambda>k. base @ ''-'' @ str_nat k) -` set taken)"
    using inj by (intro finite_vimageI) simp_all
  then have fin: "finite (?S counter)"
    by (rule rev_finite_subset) auto
  have "counter \<in> ?S counter" using mem by simp
  moreover have "counter \<notin> ?S (Suc counter)" by simp
  moreover have "?S (Suc counter) \<subseteq> ?S counter" by auto
  ultimately have "?S (Suc counter) \<subset> ?S counter" by blast
  then have "card (?S (Suc counter)) < card (?S counter)"
    using fin by (rule psubset_card_mono [rotated])
  then show "((taken, base, Suc counter), (taken, base, counter))
      \<in> measure (\<lambda>(taken, base, counter).
          card {k. counter \<le> k \<and> base @ ''-'' @ str_nat k \<in> set taken})"
    by simp
qed

declare slug_loop.simps [simp del]

text \<open>
  The slug that \<open>Post.save\<close> generates for a post without one; \<open>pk\<close> is the primary key of
  the post being saved (\<open>None\<close> before its first save, when \<open>exclude(pk=None)\<close> excludes
  nothing).
\<close>

definition unique_slug :: "env \<Rightarrow> store \<Rightarrow> string \<Rightarrow> nat option \<Rightarrow> string" where
  "unique_slug e st ttl pk =
     (let base = slugify e ttl;
          taken = map slug (filter (\<lambda>p. Some (post_pk p) \<noteq> pk) (Post_objects st))
      in if base \<in> set taken then slug_loop taken base 1 else base)"

text \<open>
  \<open>Post.save\<close>, up to its call of \<open>super().save\<close>: the slug, the rendered HTML and the
  publication time are set on the object.
\<close>

definition Post_prepare :: "env \<Rightarrow> store \<Rightarrow> nat option \<Rightarrow> Post \<Rightarrow> Post" where
  "Post_prepare e st pk obj0 =
     (let obj = (if slug obj0 = [] then obj0\<lparr>slug := unique_slug e st (title obj0) pk\<rparr> else obj0);
          obj = obj\<lparr>content_html := render_markdown e (content_md obj)\<rparr>;
          obj = (if status obj = PUBLISHED \<and> published_at obj = None
                 then obj\<lparr>published_at := Some (now e)\<rparr> else obj)
      in obj)"

text \<open>
  \<open>Post.save\<close>: the prepared object is written, inserted under a new primary key
  (\<open>pk = None\<close>) with \<open>created_at\<close> and \<open>updated_at\<close> taken from the clock, or written over
  the row \<open>pk\<close> with \<open>updated_at\<close> from the clock. The many-to-many field is not part of the
  row that \<open>save\<close> writes. The write fails when another post has the slug.
\<close>

definition Post_save :: "env \<Rightarrow> store \<Rightarrow> nat option \<Rightarrow> Post \<Rightarrow> error + (store \<times> nat)" where
  "Post_save e st pk obj0 =
     (let obj = Post_prepare e st pk obj0
      in if list_ex (\<lambda>p. slug p = slug obj \<and> Some (post_pk p) \<noteq> pk) (Post_objects st)
         then Inl IntegrityError
         else
           (case pk of
              None \<Rightarrow>
                Inr (st\<lparr>Post_objects := Post_objects st @
                           [obj\<lparr>post_pk := next_post st, created_at := now e,
                                updated_at := now e\<rparr>],
                         next_post := Suc (next_post st)\<rparr>,
                     next_post st)
            | Some k \<Rightarrow>
                Inr (st\<lparr>Post_objects :=
                           map (\<lambda>p. if post_pk p = k
                                     then obj\<lparr>post_pk := k, updated_at := now e, tags := tags p\<rparr>
                                     else p)
                               (Post_objects st)\<rparr>,
                     k)))"

definition Post_update_or_create ::
  "env \<Rightarrow> store \<Rightarrow> int \<Rightarrow> string \<Rightarrow> string \<Rightarrow> string \<Rightarrow> string \<Rightarrow> PostStatus \<Rightarrow> nat
     \<Rightarrow> datetime option \<Rightarrow> error + (store \<times> nat \<times> bool)" where
  "Post_update_or_create e st wid ttl sl md exc stat auth pub =
     (case filter (\<lambda>p. wp_post_id p = Some wid) (Post_objects st) of
        [] \<Rightarrow>
          (case Post_save e st None
                  \<lparr>post_pk = 0, title = ttl, slug = sl, content_md = md, content_html = [],
                   excerpt = exc, status = stat, author = auth, featured_image = None,
                   tags = [], published_at = pub, created_at = 0, updated_at = 0,
                   wp_post_id = Some wid\<rparr> of
             Inl err \<Rightarrow> Inl err
           | Inr (st', k) \<Rightarrow> Inr (st', k, True))
      | [p] \<Rightarrow>
          (case Post_save e st (Some (post_pk p))
                  (p\<lparr>title := ttl, slug := sl, content_md := md, excerpt := exc, status := stat,
                     author := auth, published_at := pub\<rparr>) of
             Inl err \<Rightarrow> Inl err
           | Inr (st', k) \<Rightarrow> Inr (st', k, False))
      | _ \<Rightarrow> Inl MultipleObjectsReturned)"

text \<open>\<open>post.tags.add(tag)\<close>\<close>

definition Post_tags_add :: "store \<Rightarrow> nat \<Rightarrow> nat \<Rightarrow> store" where
  "Post_tags_add st k t =
     st\<lparr>Post_objects :=
          map (\<lambda>p. if post_pk p = k \<and> t \<notin> set (tags p) then p\<lparr>tags := tags p @ [t]\<rparr> else p)
              (Post_objects st)\<rparr>"

subsection \<open>\<open>Comment.objects.update_or_create(wp_comment_id=..., defaults=...)\<close>\<close>

definition Comment_update_or_create ::
  "env \<Rightarrow> store \<Rightarrow> int \<Rightarrow> nat \<Rightarrow> nat option \<Rightarrow> string \<Rightarrow> string \<Rightarrow> string \<Rightarrow> CommentStatus
     \<Rightarrow> error + (store \<times> nat \<times> bool)" where
  "Comment_update_or_create e st wid pst par nm mail txt stat =
     (case filter (\<lambda>c. wp_comment_id c = Some wid) (Comment_objects st) of
        [] \<Rightarrow>
          Inr (st\<lparr>Comment_objects := Comment_objects st @
                     [\<lparr>comment_pk = next_comment st, comment_post = pst, parent = par,
                       author_name = nm, author_email = mail, content = txt,
                       comment_status = stat, comment_created_at = now e,
                       wp_comment_id = Some wid\<rparr>],
                   next_comment := Suc (next_comment st)\<rparr>,
               next_comment st, True)
      | [c] \<Rightarrow>
          Inr (st\<lparr>Comment_objects :=
                     map (\<lambda>x. if comment_pk x = comment_pk c
                               then c\<lparr>comment_post := pst, parent := par, author_name := nm,
                                      author_email := mail, content := txt,
                                      comment_status := stat\<rparr>
                               else x)
                         (Comment_objects st)\<rparr>,
               comment_pk c, False)
      | _ \<Rightarrow> Inl MultipleObjectsReturned)"

text \<open>\<open>Comment.objects.filter(pk=pk).update(created_at=t)\<close>\<close>

definition Comment_set_created_at :: "store \<Rightarrow> nat \<Rightarrow> datetime \<Rightarrow> store" where
  "Comment_set_created_at st k t =
     st\<lparr>Comment_objects :=
          map (\<lambda>c. if comment_pk c = k then c\<lparr>comment_created_at := t\<rparr> else c)
              (Comment_objects st)\<rparr>"

section \<open>The orchestrator: \<open>import_data\<close>\<close>

text \<open>\<open>s.split()\<close> (at runs of whitespace) and \<open>sep.join(xs)\<close>\<close>

fun split_ws :: "string \<Rightarrow> string \<Rightarrow> string list" where
  "split_ws w [] = (if w = [] then [] else [w])"
| "split_ws w (c # cs) =
     (if isspace c then (if w = [] then split_ws [] cs else w # split_ws [] cs)
      else split_ws (w @ [c]) cs)"

definition py_split :: "string \<Rightarrow> string list" where
  "py_split s = split_ws [] s"

fun py_join :: "string \<Rightarrow> string list \<Rightarrow> string" where
  "py_join sep [] = []"
| "py_join sep [x] = x"
| "py_join sep (x # y # ys) = x @ sep @ py_join sep (y # ys)"

text \<open>
  The \<open>first_name\<close> and \<open>last_name\<close> defaults of an author; \<open>split()[0]\<close> raises on a
  display name of whitespace only.
\<close>

definition author_names :: "string \<Rightarrow> error + (string \<times> string)" where
  "author_names dn =
     (if dn = [] then Inr ([], [])
      else (case py_split dn of
              [] \<Rightarrow> Inl IndexError
            | w # ws \<Rightarrow> Inr (w, py_join '' '' ws)))"

text \<open>The loop over \<open>data['authors']\<close>, building the dictionary \<open>authors\<close>.\<close>

fun import_authors ::
  "wp_author list \<Rightarrow> store \<Rightarrow> (string option \<rightharpoonup> nat) \<Rightarrow> error + (store \<times> (string option \<rightharpoonup> nat))" where
  "import_authors [] st authors = Inr (st, authors)"
| "import_authors (a # rest) st authors =
     (case author_names (wa_display_name a) of
        Inl err \<Rightarrow> Inl err
      | Inr (fname, lname) \<Rightarrow>
          (case User_get_or_create st (wa_login a) (wa_email a) fname lname of
             Inl err \<Rightarrow> Inl err
           | Inr (st', user, created) \<Rightarrow> import_authors rest st' (authors(wa_login a \<mapsto> user))))"

text \<open>The loop over \<open>data['tags']\<close>, building \<open>tag_map\<close> and counting the tags created.\<close>

fun import_tags ::
  "env \<Rightarrow> wp_tag list \<Rightarrow> store \<Rightarrow> (string option \<rightharpoonup> nat) \<Rightarrow> nat
     \<Rightarrow> error + (store \<times> (string option \<rightharpoonup> nat) \<times> nat)" where
  "import_tags e [] st tag_map n = Inr (st, tag_map, n)"
| "import_tags e (t # rest) st tag_map n =
     (case Tag_get_or_create e st (wt_slug t) (wt_name t) (wt_term_id t) of
        Inl err \<Rightarrow> Inl err
      | Inr (st', tag, created) \<Rightarrow>
          import_tags e rest st' (tag_map(wt_slug t \<mapsto> tag)) (if created then Suc n else n))"

text \<open>The loop \<open>for tag_slug in wp_post['tags']\<close>.\<close>

fun add_tags :: "(string option \<rightharpoonup> nat) \<Rightarrow> nat \<Rightarrow> string option list \<Rightarrow> store \<Rightarrow> store" where
  "add_tags tag_map post [] st = st"
| "add_tags tag_map post (s # rest) st =
     add_tags tag_map post rest
       (case tag_map s of None \<Rightarrow> st | Some t \<Rightarrow> Post_tags_add st post t)"

definition post_status_map :: "string \<Rightarrow> PostStatus" where
  "post_status_map s =
     (if s = ''published'' then PUBLISHED
      else if s = ''draft'' then DRAFT
      else if s = ''scheduled'' then SCHEDULED
      else DRAFT)"

definition comment_status_map :: "string \<Rightarrow> CommentStatus" where
  "comment_status_map s =
     (if s = ''approved'' then APPROVED
      else if s = ''pending'' then PENDING
      else if s = ''spam'' then SPAM
      else PENDING)"

text \<open>
  The loop over the sorted comments of one post: \<open>comment_map\<close> takes the source id of a
  comment already handled to its row, \<open>n\<close> counts the comments created.
\<close>

fun import_comments ::
  "env \<Rightarrow> nat \<Rightarrow> wp_comment list \<Rightarrow> store \<Rightarrow> (int \<rightharpoonup> nat) \<Rightarrow> nat
     \<Rightarrow> error + (store \<times> (int \<rightharpoonup> nat) \<times> nat)" where
  "import_comments e post [] st comment_map n = Inr (st, comment_map, n)"
| "import_comments e post (c # rest) st comment_map n =
     (let par = (if wc_parent c \<noteq> 0 then comment_map (wc_parent c) else None)
      in case Comment_update_or_create e st (wc_id c) post par (wc_author_name c)
                (wc_author_email c) (wc_content c) (comment_status_map (wc_status c)) of
           Inl err \<Rightarrow> Inl err
         | Inr (st', comment, created) \<Rightarrow>
             import_comments e post rest
               (case wc_created_at c of
                  None \<Rightarrow> st'
                | Some t \<Rightarrow> if created then Comment_set_created_at st' comment t else st')
               (comment_map(wc_id c \<mapsto> comment))
               (if created then Suc n else n))"

record stats =
  tags_created :: nat
  posts_created :: nat
  comments_created :: nat

text \<open>The body of the loop over \<open>data['posts']\<close>.\<close>

definition import_post ::
  "env \<Rightarrow> nat \<Rightarrow> (string option \<rightharpoonup> nat) \<Rightarrow> (string option \<rightharpoonup> nat) \<Rightarrow> wp_post \<Rightarrow> store \<Rightarrow> stats
     \<Rightarrow> error + (store \<times> stats)" where
  "import_post e default_author authors tag_map w st sts =
     (let auth = (case authors (wp_author w) of None \<Rightarrow> default_author | Some u \<Rightarrow> u);
          md = html_to_markdown (wp_content w);
          stat = post_status_map (wp_status w);
          sl = (case wp_slug w of
                  None \<Rightarrow> slugify e (wp_title w)
                | Some s \<Rightarrow> if s = [] then slugify e (wp_title w) else s)
      in case Post_update_or_create e st (wp_id w) (wp_title w) sl md (wp_excerpt w) stat auth
                (wp_published_at w) of
           Inl err \<Rightarrow> Inl err
         | Inr (st1, post, created) \<Rightarrow>
             (let st2 = add_tags tag_map post (wp_tags w) st1;
                  sts1 = (if created then sts\<lparr>posts_created := Suc (posts_created sts)\<rparr> else sts)
              in case import_comments e post (sort_key wc_id (wp_comments w)) st2 Map.empty
                        (comments_created sts1) of
                   Inl err \<Rightarrow> Inl err
                 | Inr (st3, comment_map, n) \<Rightarrow> Inr (st3, sts1\<lparr>comments_created := n\<rparr>)))"

fun import_posts ::
  "env \<Rightarrow> nat \<Rightarrow> (string option \<rightharpoonup> nat) \<Rightarrow> (string option \<rightharpoonup> nat) \<Rightarrow> wp_post list \<Rightarrow> store
     \<Rightarrow> stats \<Rightarrow> error + (store \<times> stats)" where
  "import_posts e default_author authors tag_map [] st sts = Inr (st, sts)"
| "import_posts e default_author authors tag_map (w # rest) st sts =
     (case import_post e default_author authors tag_map w st sts of
        Inl err \<Rightarrow> Inl err
      | Inr (st', sts') \<Rightarrow> import_posts e default_author authors tag_map rest st' sts')"

text \<open>
  \<open>import_data(data, default_author)\<close>, run on the store \<open>st\<close>: the store it leaves and the
  statistics it returns, or the exception that ends it. \<open>default_author\<close> is the primary key
  of the user passed in.
\<close>

definition import_data :: "env \<Rightarrow> wp_data \<Rightarrow> nat \<Rightarrow> store \<Rightarrow> error + (store \<times> stats)" where
  "import_data e data default_author st =
     (case import_authors (d_authors data) st Map.empty of
        Inl err \<Rightarrow> Inl err
      | Inr (st1, authors) \<Rightarrow>
          (case import_tags e (d_tags data) st1 Map.empty 0 of
             Inl err \<Rightarrow> Inl err
           | Inr (st2, tag_map, n) \<Rightarrow>
               import_posts e default_author authors tag_map (d_posts data) st2
                 \<lparr>tags_created = n, posts_created = 0, comments_created = 0\<rparr>))"

section \<open>The end-to-end scenario\<close>

text \<open>
  The export of the scenario: the tag \<open>foo\<close>, and one post with source id 1, status
  \<open>publish\<close> (which the parser turns into \<open>published\<close>), the body
  \<open><h1>Hi</h1><p>World</p>\<close>, the tag \<open>foo\<close>, the comment 10 and its reply 11, listed reply
  first. The store holds the default author only, as \<open>main\<close> leaves it before the import.
\<close>

definition scenario_export :: wp_data where
  "scenario_export =
     \<lparr>d_tags = [\<lparr>wt_term_id = 5, wt_slug = Some ''foo'', wt_name = Some ''foo''\<rparr>],
      d_posts =
        [\<lparr>wp_id = 1, wp_title = ''Hi'', wp_slug = Some ''hi'',
          wp_content = ''<h1>Hi</h1><p>World</p>'', wp_excerpt = [],
          wp_status = ''published'', wp_author = None, wp_published_at = Some 50,
          wp_tags = [Some ''foo''],
          wp_comments =
            [\<lparr>wc_id = 11, wc_parent = 10, wc_author_name = ''B'', wc_author_email = [],
              wc_content = ''reply'', wc_status = ''approved'', wc_created_at = Some 61\<rparr>,
             \<lparr>wc_id = 10, wc_parent = 0, wc_author_name = ''A'', wc_author_email = [],
              wc_content = ''first'', wc_status = ''approved'', wc_created_at = Some 60\<rparr>]\<rparr>],
      d_authors = []\<rparr>"

definition scenario_store :: store where
  "scenario_store =
     \<lparr>User_objects =
        [\<lparr>user_pk = 1, username = ''admin'', email = [], first_name = [], last_name = []\<rparr>],
      Tag_objects = [], Image_objects = [], Post_objects = [], Comment_objects = [],
      next_user = 2, next_tag = 1, next_image = 1, next_post = 1, next_comment = 1\<rparr>"

text \<open>
  A fixed environment for closed statements: the clock reads 100, the renderer is a
  stand-in, and so is \<open>slugify\<close>, which here keeps the lower-case letters, the digits, the
  hyphens and the underscores of its argument (like Django's, it makes the empty slug of a
  title without letters and digits).
\<close>

definition scenario_env :: env where
  "scenario_env =
     \<lparr>now = 100,
      slugify = filter (\<lambda>c. c \<in> set ''abcdefghijklmnopqrstuvwxyz0123456789-_''),
      render_markdown = (\<lambda>s. s)\<rparr>"

text \<open>The Markdown bodies of the posts in the store that a run leaves.\<close>

definition stored_bodies :: "error + (store \<times> stats) \<Rightarrow> string list" where
  "stored_bodies r = (case r of Inl err \<Rightarrow> [] | Inr (st, sts) \<Rightarrow> map content_md (Post_objects st))"

section \<open>The media scripts\<close>

text \<open>
  The two patterns of \<open>extract_image_urls\<close>: \<open>!\[[^\]]*\]\(([^)]+)\)\<close> and
  \<open><img[^>]+src=["\']([^"\']+)["\']\<close>.
\<close>

definition md_pattern :: "item list" where
  "md_pattern =
     [I Once (Lit CHR ''!''), I Once (Lit CHR ''[''), I (Rep 0) (NoneOf '']''),
      I Once (Lit CHR '']''), I Once (Lit CHR ''(''), G (Rep 1) (NoneOf '')''),
      I Once (Lit CHR '')'')]"

definition html_pattern :: "item list" where
  "html_pattern =
     lit ''<img'' @ [I (Rep 1) (NoneOf ''>'')] @ lit ''src=''
     @ [I Once (OneOf [DQ, SQ]), G (Rep 1) (NoneOf [DQ, SQ]), I Once (OneOf [DQ, SQ])]"

text \<open>
  The Python \<open>set\<close> named \<open>urls\<close> is kept as the list of its elements in the order they
  were added. \<open>add_urls\<close> is one of the two \<open>for\<close> loops: it adds the matches on the domain
  and the matches that start with a slash.
\<close>

fun add_urls :: "string \<Rightarrow> string list \<Rightarrow> string list \<Rightarrow> string list" where
  "add_urls domain [] urls = urls"
| "add_urls domain (url # rest) urls =
     add_urls domain rest
       (if (contains url domain \<or> startswith url ''/'') \<and> url \<notin> set urls then urls @ [url]
        else urls)"

text \<open>
  \<open>extract_image_urls(content, domain)\<close>, with \<open>body\<close> for the content. The order in which \<open>list(urls)\<close> lists a set is
  not fixed by the script (it depends on the hashes of the strings): \<open>list_of\<close> is that
  order, a parameter.
\<close>

definition extract_image_urls ::
  "(string list \<Rightarrow> string list) \<Rightarrow> string \<Rightarrow> string \<Rightarrow> string list" where
  "extract_image_urls list_of body domain =
     list_of (add_urls domain (finditer1 html_pattern body)
                (add_urls domain (finditer1 md_pattern body) []))"

text \<open>\<open>content.find(u)\<close>: the index of the first occurrence of \<open>u\<close>, if there is one.\<close>

fun py_find :: "string \<Rightarrow> string \<Rightarrow> nat option" where
  "py_find [] u = (if u = [] then Some 0 else None)"
| "py_find (c # cs) u =
     (if startswith (c # cs) u then Some 0 else map_option Suc (py_find cs u))"

text \<open>
  What \<open>download_images.py\<close> takes from outside: \<open>download_image(url, base_url)\<close> (the
  bytes and the file name, or \<open>None\<close>), the name under which the storage saves an upload
  given the images already stored, and the URL of a stored file.
\<close>

record media =
  download_image :: "string \<Rightarrow> string \<Rightarrow> (string \<times> string) option"
  storage_name :: "Image list \<Rightarrow> string \<Rightarrow> string"
  storage_url :: "string \<Rightarrow> string"

text \<open>
  The loop \<open>for url in image_urls\<close> of \<open>process_post_images\<close>: the store, the new content
  and the number of downloads.
\<close>

fun process_urls ::
  "media \<Rightarrow> string \<Rightarrow> string \<Rightarrow> string list \<Rightarrow> store \<Rightarrow> string \<Rightarrow> nat \<Rightarrow> store \<times> string \<times> nat" where
  "process_urls m base_url ttl [] st new_content downloaded = (st, new_content, downloaded)"
| "process_urls m base_url ttl (url # rest) st new_content downloaded =
     (case download_image m url base_url of
        None \<Rightarrow> process_urls m base_url ttl rest st new_content downloaded
      | Some (image_bytes, filename) \<Rightarrow>
          (let stored = storage_name m (Image_objects st) filename;
               image = \<lparr>image_pk = next_image st, image_file = stored,
                        original_name = filename, alt_text = ''Image from '' @ ttl\<rparr>;
               st' = st\<lparr>Image_objects := Image_objects st @ [image],
                        next_image := Suc (next_image st)\<rparr>
           in process_urls m base_url ttl rest st'
                (py_replace new_content url (storage_url m stored)) (Suc downloaded)))"

definition process_post_images ::
  "env \<Rightarrow> media \<Rightarrow> (string list \<Rightarrow> string list) \<Rightarrow> store \<Rightarrow> Post \<Rightarrow> string \<Rightarrow> string
     \<Rightarrow> error + (store \<times> nat)" where
  "process_post_images e m list_of st post domain base_url =
     (case process_urls m base_url (title post)
             (extract_image_urls list_of (content_md post) domain) st (content_md post) 0 of
        (st', new_content, downloaded) \<Rightarrow>
          if new_content \<noteq> content_md post
          then (case Post_save e st' (Some (post_pk post)) (post\<lparr>content_md := new_content\<rparr>) of
                  Inl err \<Rightarrow> Inl err
                | Inr (st'', k) \<Rightarrow> Inr (st'', downloaded))
          else Inr (st', downloaded))"

text \<open>The loop of \<open>main\<close> over \<open>Post.objects.all()\<close>.\<close>

fun process_posts ::
  "env \<Rightarrow> media \<Rightarrow> (string list \<Rightarrow> string list) \<Rightarrow> string \<Rightarrow> string \<Rightarrow> Post list \<Rightarrow> store \<Rightarrow> nat
     \<Rightarrow> error + (store \<times> nat)" where
  "process_posts e m list_of domain base_url [] st total_downloaded = Inr (st, total_downloaded)"
| "process_posts e m list_of domain base_url (post # rest) st total_downloaded =
     (case process_post_images e m list_of st post domain base_url of
        Inl err \<Rightarrow> Inl err
      | Inr (st', downloaded) \<Rightarrow>
          process_posts e m list_of domain base_url rest st' (total_downloaded + downloaded))"

definition download_images_main ::
  "env \<Rightarrow> media \<Rightarrow> (string list \<Rightarrow> string list) \<Rightarrow> string \<Rightarrow> store \<Rightarrow> error + (store \<times> nat)" where
  "download_images_main e m list_of domain st =
     process_posts e m list_of domain (''https://'' @ domain) (Post_objects st) st 0"

text \<open>
  Two posts whose bodies reference the same image, and a download that succeeds with the
  file name \<open>x.png\<close>.
\<close>

definition two_posts_store :: store where
  "two_posts_store =
     \<lparr>User_objects =
        [\<lparr>user_pk = 1, username = ''admin'', email = [], first_name = [], last_name = []\<rparr>],
      Tag_objects = [], Image_objects = [],
      Post_objects =
        [\<lparr>post_pk = 1, title = ''One'', slug = ''one'',
          content_md = ''![a](https://d.example/x.png)'', content_html = [], excerpt = [],
          status = DRAFT, author = 1, featured_image = None, tags = [], published_at = None,
          created_at = 0, updated_at = 0, wp_post_id = Some 1\<rparr>,
         \<lparr>post_pk = 2, title = ''Two'', slug = ''two'',
          content_md = ''![b](https://d.example/x.png)'', content_html = [], excerpt = [],
          status = DRAFT, author = 1, featured_image = None, tags = [], published_at = None,
          created_at = 0, updated_at = 0, wp_post_id = Some 2\<rparr>],
      Comment_objects = [],
      next_user = 2, next_tag = 1, next_image = 1, next_post = 3, next_comment = 1\<rparr>"

definition stored_images :: "error + (store \<times> nat) \<Rightarrow> string list" where
  "stored_images r =
     (case r of Inl err \<Rightarrow> [] | Inr (st, n) \<Rightarrow> map original_name (Image_objects st))"

text \<open>A body with an HTML image in front of a Markdown image.\<close>

definition mixed_body :: string where
  "mixed_body = ''<img src='' @ [DQ] @ ''/b.png'' @ [DQ] @ ''> ![x](/a.png)''"

section \<open>The export parser: \<open>parse_posts\<close>\<close>

text \<open>
  An element of \<open>xml.etree.ElementTree\<close>: its tag (a name in a namespace is written
  \<open>{uri}name\<close>, as ElementTree does), its attributes, its text (\<open>None\<close> for an empty element)
  and its children. \<open>el_find\<close>, \<open>el_findall\<close> and \<open>el_get\<close> are \<open>find\<close>, \<open>findall\<close> and
  \<open>get\<close>.
\<close>

datatype xml = Element (el_tag: string) (el_attrib: "(string \<times> string) list")
  (el_text: "string option") (el_children: "xml list")

definition el_find :: "xml \<Rightarrow> string \<Rightarrow> xml option" where
  "el_find e t = find (\<lambda>c. el_tag c = t) (el_children e)"

definition el_findall :: "xml \<Rightarrow> string \<Rightarrow> xml list" where
  "el_findall e t = filter (\<lambda>c. el_tag c = t) (el_children e)"

definition el_get :: "xml \<Rightarrow> string \<Rightarrow> string option" where
  "el_get e k = map_of (el_attrib e) k"

definition WP :: "string \<Rightarrow> string" where
  "WP n = ''{http://wordpress.org/export/1.2/}'' @ n"

definition CONTENT :: "string \<Rightarrow> string" where
  "CONTENT n = ''{http://purl.org/rss/1.0/modules/content/}'' @ n"

definition DC :: "string \<Rightarrow> string" where
  "DC n = ''{http://purl.org/dc/elements/1.1/}'' @ n"

definition EXCERPT :: "string \<Rightarrow> string" where
  "EXCERPT n = ''{http://wordpress.org/export/1.2/excerpt/}'' @ n"

text \<open>Running one fallible step after another: the first exception ends the computation.\<close>

definition and_then :: "error + 'a \<Rightarrow> ('a \<Rightarrow> error + 'b) \<Rightarrow> error + 'b" where
  "and_then r f = (case r of Inl err \<Rightarrow> Inl err | Inr x \<Rightarrow> f x)"

text \<open>\<open>e.find(t).text\<close>: an \<open>AttributeError\<close> when there is no such child.\<close>

definition find_text :: "xml \<Rightarrow> string \<Rightarrow> error + string option" where
  "find_text e t = (case el_find e t of None \<Rightarrow> Inl AttributeError | Some c \<Rightarrow> Inr (el_text c))"

text \<open>\<open>x or d\<close> for a text \<open>x\<close>\<close>

definition text_or :: "string option \<Rightarrow> string \<Rightarrow> string" where
  "text_or x d = (case x of None \<Rightarrow> d | Some s \<Rightarrow> if s = [] then d else s)"

text \<open>
  \<open>int(s)\<close> for a string: surrounding whitespace, a sign, decimal digits, single underscores
  between digits; a \<open>ValueError\<close> otherwise.
\<close>

definition digit_val :: "char \<Rightarrow> nat option" where
  "digit_val c =
     (if (48::nat) \<le> of_char c \<and> (of_char c :: nat) \<le> 57 then Some (of_char c - 48) else None)"

fun int_digits :: "string \<Rightarrow> nat \<Rightarrow> bool \<Rightarrow> nat option" where
  "int_digits [] acc after_digit = (if after_digit then Some acc else None)"
| "int_digits (c # cs) acc after_digit =
     (case digit_val c of
        Some d \<Rightarrow> int_digits cs (10 * acc + d) True
      | None \<Rightarrow> if c = CHR ''_'' \<and> after_digit then int_digits cs acc False else None)"

definition py_int :: "string \<Rightarrow> error + int" where
  "py_int s =
     (case py_strip s of
        [] \<Rightarrow> Inl ValueError
      | c # cs \<Rightarrow>
          if c = CHR ''-'' then
            (case int_digits cs 0 False of None \<Rightarrow> Inl ValueError | Some n \<Rightarrow> Inr (- int n))
          else if c = CHR ''+'' then
            (case int_digits cs 0 False of None \<Rightarrow> Inl ValueError | Some n \<Rightarrow> Inr (int n))
          else
            (case int_digits (c # cs) 0 False of None \<Rightarrow> Inl ValueError | Some n \<Rightarrow> Inr (int n)))"

text \<open>\<open>int(x)\<close> for a text: a \<open>TypeError\<close> on \<open>None\<close>.\<close>

definition int_of_text :: "string option \<Rightarrow> error + int" where
  "int_of_text x = (case x of None \<Rightarrow> Inl TypeError | Some s \<Rightarrow> py_int s)"

text \<open>
  One \<open>wp:comment\<close> element. \<open>strptime s fmt\<close> stands for \<open>datetime.strptime\<close>, with \<open>None\<close>
  for its \<open>ValueError\<close>; on a missing date text it raises a \<open>TypeError\<close>, which the script
  does not catch.
\<close>

definition parse_comment :: "(string \<Rightarrow> string \<Rightarrow> datetime option) \<Rightarrow> xml \<Rightarrow> error + wp_comment" where
  "parse_comment strptime c =
     and_then (find_text c (WP ''comment_approved'')) (\<lambda>comment_approved.
     let comment_status =
           (if comment_approved = Some ''1'' then ''approved''
            else if comment_approved = Some ''spam'' then ''spam''
            else ''pending'')
     in
     and_then (find_text c (WP ''comment_date'')) (\<lambda>comment_date.
     and_then (case comment_date of
                 None \<Rightarrow> Inl TypeError
               | Some d \<Rightarrow> Inr (strptime d ''%Y-%m-%d %H:%M:%S'')) (\<lambda>comment_created.
     and_then (find_text c (WP ''comment_id'')) (\<lambda>id_text.
     and_then (int_of_text id_text) (\<lambda>cid.
     and_then (find_text c (WP ''comment_parent'')) (\<lambda>parent_text.
     and_then (case parent_text of
                 None \<Rightarrow> Inr 0
               | Some s \<Rightarrow> if s = [] then Inr 0 else py_int s) (\<lambda>cparent.
     and_then (find_text c (WP ''comment_author'')) (\<lambda>cauthor.
     and_then (find_text c (WP ''comment_author_email'')) (\<lambda>cemail.
     and_then (find_text c (WP ''comment_content'')) (\<lambda>ccontent.
       Inr \<lparr>wc_id = cid, wc_parent = cparent,
            wc_author_name = text_or cauthor ''Anonymous'',
            wc_author_email = text_or cemail [],
            wc_content = text_or ccontent [],
            wc_status = comment_status,
            wc_created_at = comment_created\<rparr>))))))))))"

fun parse_comments ::
  "(string \<Rightarrow> string \<Rightarrow> datetime option) \<Rightarrow> xml list \<Rightarrow> error + wp_comment list" where
  "parse_comments strptime [] = Inr []"
| "parse_comments strptime (c # rest) =
     and_then (parse_comment strptime c) (\<lambda>x.
     and_then (parse_comments strptime rest) (\<lambda>xs. Inr (x # xs)))"

text \<open>
  The body of the loop of \<open>parse_posts\<close> for one \<open>item\<close>: \<open>Inr None\<close> where the script
  says \<open>continue\<close>, \<open>Inr (Some p)\<close> where it appends the post \<open>p\<close>.
\<close>

definition parse_item ::
  "(string \<Rightarrow> string \<Rightarrow> datetime option) \<Rightarrow> xml \<Rightarrow> error + wp_post option" where
  "parse_item strptime item =
     (case el_find item (WP ''post_type'') of
        None \<Rightarrow> Inr None
      | Some post_type \<Rightarrow>
          if el_text post_type \<noteq> Some ''post'' then Inr None
          else
            and_then (find_text item (WP ''status'')) (\<lambda>wp_st.
            if wp_st \<noteq> Some ''publish'' \<and> wp_st \<noteq> Some ''draft'' \<and> wp_st \<noteq> Some ''future''
            then Inr None
            else
              let stat = (if wp_st = Some ''publish'' then ''published''
                          else if wp_st = Some ''draft'' then ''draft''
                          else ''scheduled'')
              in
              and_then (find_text item ''pubDate'') (\<lambda>pub_date.
              let pub = (case pub_date of
                           None \<Rightarrow> None
                         | Some d \<Rightarrow> if d = [] then None
                                      else strptime d ''%a, %d %b %Y %H:%M:%S %z'');
                  body = (case el_find item (CONTENT ''encoded'') of
                            None \<Rightarrow> [] | Some x \<Rightarrow> text_or (el_text x) []);
                  exc = (case el_find item (EXCERPT ''encoded'') of
                           None \<Rightarrow> [] | Some x \<Rightarrow> text_or (el_text x) []);
                  tgs = map (\<lambda>category. el_get category ''nicename'')
                          (filter (\<lambda>category. el_get category ''domain'' = Some ''post_tag'')
                             (el_findall item ''category''))
              in
              and_then (parse_comments strptime (el_findall item (WP ''comment''))) (\<lambda>cmts.
              and_then (find_text item (WP ''post_id'')) (\<lambda>id_text.
              and_then (int_of_text id_text) (\<lambda>pid.
              and_then (find_text item ''title'') (\<lambda>ttl.
              and_then (find_text item (WP ''post_name'')) (\<lambda>sl.
              and_then (find_text item (DC ''creator'')) (\<lambda>creator.
                Inr (Some \<lparr>wp_id = pid, wp_title = text_or ttl ''Untitled'', wp_slug = sl,
                           wp_content = body, wp_excerpt = exc, wp_status = stat,
                           wp_author = creator, wp_published_at = pub, wp_tags = tgs,
                           wp_comments = cmts\<rparr>))))))))))"

fun parse_items ::
  "(string \<Rightarrow> string \<Rightarrow> datetime option) \<Rightarrow> xml list \<Rightarrow> error + wp_post list" where
  "parse_items strptime [] = Inr []"
| "parse_items strptime (item # rest) =
     and_then (parse_item strptime item) (\<lambda>r.
     and_then (parse_items strptime rest) (\<lambda>ps.
       Inr (case r of None \<Rightarrow> ps | Some p \<Rightarrow> p # ps)))"

definition parse_posts ::
  "(string \<Rightarrow> string \<Rightarrow> datetime option) \<Rightarrow> xml \<Rightarrow> error + wp_post list" where
  "parse_posts strptime channel = parse_items strptime (el_findall channel ''item'')"

text \<open>An \<open>item\<close> of type post with the given status, and nothing missing.\<close>

definition post_item :: "string \<Rightarrow> string \<Rightarrow> xml" where
  "post_item pid st =
     Element ''item'' [] None
       [Element ''title'' [] (Some ''Hi'') [],
        Element ''pubDate'' [] None [],
        Element (DC ''creator'') [] (Some ''admin'') [],
        Element (CONTENT ''encoded'') [] (Some ''<p>World</p>'') [],
        Element (WP ''post_id'') [] (Some pid) [],
        Element (WP ''post_name'') [] (Some ''hi'') [],
        Element (WP ''status'') [] (Some st) [],
        Element (WP ''post_type'') [] (Some ''post'') [],
        Element ''category'' [(''domain'', ''post_tag''), (''nicename'', ''foo'')] (Some ''foo'') []]"

section \<open>Notions for the statements about \<open>import_data\<close>\<close>

text \<open>
  \<open>keeps_tags st st'\<close>: every post of \<open>st\<close> is still a post of \<open>st'\<close>, under the same primary
  key and with every tag it had, and every tag row of \<open>st\<close> is a tag row of \<open>st'\<close>.
\<close>

definition keeps_tags :: "store \<Rightarrow> store \<Rightarrow> bool" where
  "keeps_tags st st' =
     (list_all (\<lambda>p. list_ex (\<lambda>p'. post_pk p' = post_pk p \<and> set (tags p) \<subseteq> set (tags p'))
                         (Post_objects st'))
               (Post_objects st)
      \<and> set (Tag_objects st) \<subseteq> set (Tag_objects st'))"

text \<open>
  A store after an import of the scenario, in which the tag \<open>bar\<close> was then added to the
  post by hand.
\<close>

definition hand_tagged_post :: Post where
  "hand_tagged_post =
     \<lparr>post_pk = 1, title = ''Hi'', slug = ''hi'', content_md = ''# Hi'' @ [NL] @ ''World'',
      content_html = [], excerpt = [], status = PUBLISHED, author = 1,
      featured_image = None, tags = [1, 2], published_at = Some 50, created_at = 100,
      updated_at = 100, wp_post_id = Some 1\<rparr>"

definition hand_tagged_store :: store where
  "hand_tagged_store =
     \<lparr>User_objects =
        [\<lparr>user_pk = 1, username = ''admin'', email = [], first_name = [], last_name = []\<rparr>],
      Tag_objects =
        [\<lparr>tag_pk = 1, tag_name = ''foo'', tag_slug = ''foo'', tag_wp_term_id = Some 5\<rparr>,
         \<lparr>tag_pk = 2, tag_name = ''bar'', tag_slug = ''bar'', tag_wp_term_id = None\<rparr>],
      Image_objects = [],
      Post_objects = [hand_tagged_post],
      Comment_objects =
        [\<lparr>comment_pk = 1, comment_post = 1, parent = None, author_name = ''A'',
          author_email = [], content = ''first'', comment_status = APPROVED,
          comment_created_at = 60, wp_comment_id = Some 10\<rparr>,
         \<lparr>comment_pk = 2, comment_post = 1, parent = Some 1, author_name = ''B'',
          author_email = [], content = ''reply'', comment_status = APPROVED,
          comment_created_at = 61, wp_comment_id = Some 11\<rparr>],
      next_user = 2, next_tag = 3, next_image = 1, next_post = 2, next_comment = 3\<rparr>"

text \<open>
  The lookups by natural key, as \<open>get\<close> does them: the row, when exactly one row carries
  the key.
\<close>

definition comment_of :: "store \<Rightarrow> int \<Rightarrow> Comment option" where
  "comment_of st i =
     (case filter (\<lambda>x. wp_comment_id x = Some i) (Comment_objects st) of
        [r] \<Rightarrow> Some r | _ \<Rightarrow> None)"

definition post_of :: "store \<Rightarrow> int \<Rightarrow> Post option" where
  "post_of st i =
     (case filter (\<lambda>x. wp_post_id x = Some i) (Post_objects st) of
        [p] \<Rightarrow> Some p | _ \<Rightarrow> None)"

definition user_of :: "store \<Rightarrow> string option \<Rightarrow> User option" where
  "user_of st n =
     (case filter (\<lambda>u. Some (username u) = n) (User_objects st) of
        [u] \<Rightarrow> Some u | _ \<Rightarrow> None)"

definition tag_of :: "store \<Rightarrow> string option \<Rightarrow> Tag option" where
  "tag_of st s =
     (case filter (\<lambda>t. Some (tag_slug t) = s) (Tag_objects st) of
        [t] \<Rightarrow> Some t | _ \<Rightarrow> None)"

text \<open>
  A store as the database keeps it: primary keys are distinct and below the next key of
  their table, and the columns declared \<open>unique\<close> (user names, tag slugs, post slugs) hold
  distinct values.
\<close>

definition wf_store :: "store \<Rightarrow> bool" where
  "wf_store st =
     (distinct (map user_pk (User_objects st)) \<and> distinct (map username (User_objects st))
      \<and> list_all (\<lambda>u. user_pk u < next_user st) (User_objects st)
      \<and> distinct (map tag_pk (Tag_objects st)) \<and> distinct (map tag_slug (Tag_objects st))
      \<and> list_all (\<lambda>t. tag_pk t < next_tag st) (Tag_objects st)
      \<and> distinct (map post_pk (Post_objects st)) \<and> distinct (map slug (Post_objects st))
      \<and> list_all (\<lambda>p. post_pk p < next_post st) (Post_objects st)
      \<and> distinct (map comment_pk (Comment_objects st))
      \<and> list_all (\<lambda>c. comment_pk c < next_comment st) (Comment_objects st))"

text \<open>
  \<open>comments_done post cs comment_map st\<close>: the store holds the comments \<open>cs\<close> as the loop
  over them, started with \<open>comment_map\<close>, writes them for the post \<open>post\<close>.
\<close>

fun comments_done :: "nat \<Rightarrow> wp_comment list \<Rightarrow> (int \<rightharpoonup> nat) \<Rightarrow> store \<Rightarrow> bool" where
  "comments_done post [] comment_map st = True"
| "comments_done post (c # cs) comment_map st =
     (case comment_of st (wc_id c) of
        None \<Rightarrow> False
      | Some r \<Rightarrow>
          comment_post r = post
          \<and> parent r = (if wc_parent c \<noteq> 0 then comment_map (wc_parent c) else None)
          \<and> author_name r = wc_author_name c \<and> author_email r = wc_author_email c
          \<and> content r = wc_content c \<and> comment_status r = comment_status_map (wc_status c)
          \<and> comments_done post cs (comment_map(wc_id c \<mapsto> comment_pk r)) st)"




text \<open>
  \<open>users_done as m m' st\<close>: the store holds a user for every author of \<open>as\<close>, and the loop
  over \<open>as\<close>, started with the dictionary \<open>m\<close>, ends with \<open>m'\<close>. \<open>tags_done\<close> is the same for
  the tags; a tag without a slug in the export is found under the slug made from its name.
\<close>

fun users_done ::
  "wp_author list \<Rightarrow> (string option \<rightharpoonup> nat) \<Rightarrow> (string option \<rightharpoonup> nat) \<Rightarrow> store \<Rightarrow> bool" where
  "users_done [] m m' st = (m' = m)"
| "users_done (a # rest) m m' st =
     (case user_of st (wa_login a) of
        None \<Rightarrow> False
      | Some u \<Rightarrow>
          (case author_names (wa_display_name a) of Inl err \<Rightarrow> False | Inr x \<Rightarrow> True)
          \<and> users_done rest (m(wa_login a \<mapsto> user_pk u)) m' st)"

fun tags_done ::
  "wp_tag list \<Rightarrow> (string option \<rightharpoonup> nat) \<Rightarrow> (string option \<rightharpoonup> nat) \<Rightarrow> store \<Rightarrow> bool" where
  "tags_done [] m m' st = (m' = m)"
| "tags_done (t # rest) m m' st =
     list_ex (\<lambda>g. (case wt_slug t of
                     None \<Rightarrow> True
                   | Some x \<Rightarrow> if x = [] then True else tag_of st (wt_slug t) = Some g)
                  \<and> tags_done rest (m(wt_slug t \<mapsto> tag_pk g)) m' st)
       (Tag_objects st)"

text \<open>
  \<open>restamp t w st\<close>: the store \<open>st\<close> with the time \<open>t\<close> written to \<open>updated_at\<close> of the post
  \<open>w\<close> of the export and, when that post is published and has no publication time in the
  export, to its \<open>published_at\<close>.
\<close>

definition restamp :: "datetime \<Rightarrow> wp_post \<Rightarrow> store \<Rightarrow> store" where
  "restamp t w st =
     st\<lparr>Post_objects :=
          map (\<lambda>x. if wp_post_id x = Some (wp_id w)
                    then x\<lparr>updated_at := t,
                           published_at :=
                             (if post_status_map (wp_status w) = PUBLISHED
                                 \<and> wp_published_at w = None
                              then Some t else published_at x)\<rparr>
                    else x)
              (Post_objects st)\<rparr>"

section \<open>Exports and stores for the closed statements\<close>

text \<open>The store that a run leaves, if it ends without an exception.\<close>

definition result_store :: "error + (store \<times> 'a) \<Rightarrow> store option" where
  "result_store r = (case r of Inl err \<Rightarrow> None | Inr (st, x) \<Rightarrow> Some st)"

text \<open>Two runs of \<open>import_data\<close> on the same export, with the clocks of \<open>e1\<close> and \<open>e2\<close>.\<close>

definition import_twice :: "env \<Rightarrow> env \<Rightarrow> wp_data \<Rightarrow> nat \<Rightarrow> store \<Rightarrow> error + (store \<times> stats)" where
  "import_twice e1 e2 data default_author st =
     (case import_data e1 data default_author st of
        Inl err \<Rightarrow> Inl err
      | Inr (st1, sts1) \<Rightarrow> import_data e2 data default_author st1)"

text \<open>The post of the scenario.\<close>

definition scenario_post :: wp_post where
  "scenario_post =
     \<lparr>wp_id = 1, wp_title = ''Hi'', wp_slug = Some ''hi'',
      wp_content = ''<h1>Hi</h1><p>World</p>'', wp_excerpt = [],
      wp_status = ''published'', wp_author = None, wp_published_at = Some 50,
      wp_tags = [Some ''foo''],
      wp_comments =
        [\<lparr>wc_id = 11, wc_parent = 10, wc_author_name = ''B'', wc_author_email = [],
          wc_content = ''reply'', wc_status = ''approved'', wc_created_at = Some 61\<rparr>,
         \<lparr>wc_id = 10, wc_parent = 0, wc_author_name = ''A'', wc_author_email = [],
          wc_content = ''first'', wc_status = ''approved'', wc_created_at = Some 60\<rparr>]\<rparr>"


text \<open>
  An export whose post names the author \<open>bob\<close> and the tag \<open>foo\<close>, and which lists neither
  an author nor a tag; and the same export with both listed.
\<close>

definition unlisted_export :: wp_data where
  "unlisted_export =
     \<lparr>d_tags = [], d_posts = [scenario_post\<lparr>wp_author := Some ''bob''\<rparr>], d_authors = []\<rparr>"

definition listed_export :: wp_data where
  "listed_export =
     \<lparr>d_tags = [\<lparr>wt_term_id = 5, wt_slug = Some ''foo'', wt_name = Some ''foo''\<rparr>],
      d_posts = [scenario_post\<lparr>wp_author := Some ''bob''\<rparr>],
      d_authors = [\<lparr>wa_login = Some ''bob'', wa_email = ''bob@example.org'',
                    wa_display_name = ''Bob B''\<rparr>]\<rparr>"

text \<open>The scenario with a published post that has no publication date in the export.\<close>

definition undated_export :: wp_data where
  "undated_export =
     \<lparr>d_tags = [], d_posts = [scenario_post\<lparr>wp_published_at := None, wp_comments := []\<rparr>],
      d_authors = []\<rparr>"

text \<open>
  An export that lists the post 1 twice, first with the slug \<open>x\<close> and then with the slug
  \<open>y\<close>, and then a post 2 with the slug \<open>x\<close>.
\<close>

definition duplicate_id_export :: wp_data where
  "duplicate_id_export =
     \<lparr>d_tags = [],
      d_posts =
        [scenario_post\<lparr>wp_slug := Some ''x'', wp_comments := []\<rparr>,
         scenario_post\<lparr>wp_slug := Some ''y'', wp_comments := []\<rparr>,
         scenario_post\<lparr>wp_id := 2, wp_slug := Some ''x'', wp_comments := []\<rparr>],
      d_authors = []\<rparr>"

text \<open>
  A store that holds the post 2 under the empty slug (generated for a title without letters
  and digits), and an export with a post 1 that has no slug and the title \<open>!!!\<close>, and the
  post 2 under the new slug \<open>zzz\<close>.
\<close>

definition renamed_store :: store where
  "renamed_store =
     scenario_store\<lparr>Post_objects :=
        [\<lparr>post_pk = 1, title = ''???'', slug = [], content_md = [], content_html = [],
          excerpt = [], status = DRAFT, author = 1, featured_image = None, tags = [],
          published_at = None, created_at = 10, updated_at = 10, wp_post_id = Some 2\<rparr>],
        next_post := 2\<rparr>"

definition slugless_export :: wp_data where
  "slugless_export =
     \<lparr>d_tags = [],
      d_posts =
        [scenario_post\<lparr>wp_title := ''!!!'', wp_slug := None, wp_comments := []\<rparr>,
         scenario_post\<lparr>wp_id := 2, wp_slug := Some ''zzz'', wp_comments := []\<rparr>],
      d_authors = []\<rparr>"

text \<open>An export with a tag that has a name and no slug.\<close>

definition slugless_tag_export :: wp_data where
  "slugless_tag_export =
     \<lparr>d_tags = [\<lparr>wt_term_id = 5, wt_slug = None, wt_name = Some ''foo''\<rparr>],
      d_posts = [], d_authors = []\<rparr>"

section \<open>Facts about strings and the matcher\<close>

lemma startswith_iff: "startswith s p \<longleftrightarrow> (\<exists>v. s = p @ v)"
  by (induction s p rule: startswith.induct) auto

lemma contains_iff: "contains s p \<longleftrightarrow> (\<exists>u v. s = u @ p @ v)"
proof (induction s)
  case Nil
  then show ?case by auto
next
  case (Cons c cs)
  show ?case
  proof
    assume "contains (c # cs) p"
    then consider "startswith (c # cs) p" | "contains cs p" by auto
    then show "\<exists>u v. c # cs = u @ p @ v"
    proof cases
      case 1
      then obtain v where "c # cs = p @ v" using startswith_iff by blast
      then have "c # cs = [] @ p @ v" by simp
      then show ?thesis by blast
    next
      case 2
      then obtain u v where "cs = u @ p @ v" using Cons.IH by blast
      then have "c # cs = (c # u) @ p @ v" by simp
      then show ?thesis by blast
    qed
  next
    assume "\<exists>u v. c # cs = u @ p @ v"
    then obtain u v where uv: "c # cs = u @ p @ v" by blast
    show "contains (c # cs) p"
    proof (cases u)
      case Nil
      with uv have "startswith (c # cs) p" using startswith_iff by auto
      then show ?thesis by simp
    next
      case (Cons d u')
      with uv have "cs = u' @ p @ v" by simp
      then have "contains cs p" using Cons.IH by blast
      then show ?thesis by simp
    qed
  qed
qed

lemma strip_split: "dropWhile isspace s = py_strip s @ rev (takeWhile isspace (rev (dropWhile isspace s)))"
  unfolding py_strip_def by (metis rev_append rev_rev_ident takeWhile_dropWhile_id)

lemma contains_strip: "contains (py_strip s) p \<Longrightarrow> contains s p"
proof -
  assume a: "contains (py_strip s) p"
  let ?t = "dropWhile isspace s"
  have 1: "s = takeWhile isspace s @ ?t" by simp
  have 2: "?t = py_strip s @ rev (takeWhile isspace (rev ?t))" by (rule strip_split)
  from a obtain u v where "py_strip s = u @ p @ v" using contains_iff by blast
  with 1 2 have "s = (takeWhile isspace s @ u) @ p @ (v @ rev (takeWhile isspace (rev ?t)))"
    by (metis append.assoc)
  then show ?thesis using contains_iff by blast
qed

lemma strip_leading: "takeWhile isspace (py_strip s) = []"
proof -
  let ?t = "dropWhile isspace s"
  have t: "?t = py_strip s @ rev (takeWhile isspace (rev ?t))" by (rule strip_split)
  show ?thesis
  proof (cases "py_strip s")
    case Nil
    then show ?thesis by simp
  next
    case (Cons c cs)
    with t have "hd ?t = c" "?t \<noteq> []" by (metis append_Cons list.sel(1), metis append_Cons list.distinct(1))
    then have "\<not> isspace c" using hd_dropWhile by metis
    with Cons show ?thesis by simp
  qed
qed

lemma strip_trailing: "takeWhile isspace (rev (py_strip s)) = []"
proof -
  have "rev (py_strip s) = dropWhile isspace (rev (dropWhile isspace s))"
    by (simp add: py_strip_def)
  then show ?thesis
    by (metis hd_dropWhile takeWhile.simps(1) takeWhile_eq_Nil_iff list.set_sel(1) takeWhile_eq_all_conv  dropWhile_eq_Nil_conv)
qed

lemma rmatch_rep:
  "rmatch [(Rep n, a)] s =
     (if n \<le> length (takeWhile (atom_ok a) s) then Some [length (takeWhile (atom_ok a) s)] else None)"
  by (induction s arbitrary: n) (auto split: option.splits list.splits)

lemma match_nl3:
  "re_match [I (Rep 3) (Lit NL)] s =
     (if 3 \<le> length (takeWhile isnl s) then Some [length (takeWhile isnl s)] else None)"
proof -
  have "atom_ok (Lit NL) = isnl" by (rule ext) simp
  then show ?thesis by (simp add: re_match_def rmatch_rep del: rmatch.simps)
qed

lemma sub_nl3_Cons:
  "re_sub [I (Rep 3) (Lit NL)] r (c # cs) =
     (if 3 \<le> length (takeWhile isnl (c # cs))
      then r [] @ re_sub [I (Rep 3) (Lit NL)] r (dropWhile isnl cs)
      else c # re_sub [I (Rep 3) (Lit NL)] r cs)"
proof (cases "3 \<le> length (takeWhile isnl (c # cs))")
  case True
  then have c: "c = NL" by (auto split: if_splits)
  then have "length (takeWhile isnl (c # cs)) = Suc (length (takeWhile isnl cs))" by simp
  moreover have "drop (length (takeWhile isnl cs)) cs = dropWhile isnl cs"
    by (simp add: dropWhile_eq_drop)
  ultimately show ?thesis using True
    by (simp add: match_nl3 del: takeWhile.simps)
next
  case False
  then show ?thesis by (simp add: match_nl3 del: takeWhile.simps)
qed

lemma sub_nl3_run:
  "length (takeWhile isnl (re_sub [I (Rep 3) (Lit NL)] (\<lambda>g. [NL, NL]) s))
     = min 2 (length (takeWhile isnl s))"
proof (induction s rule: length_induct)
  case (1 s)
  show ?case
  proof (cases s)
    case Nil
    then show ?thesis by simp
  next
    case (Cons c cs)
    show ?thesis
    proof (cases "3 \<le> length (takeWhile isnl (c # cs))")
      case True
      have "length (dropWhile isnl cs) < length s" using Cons
        by (simp add: length_dropWhile_le le_imp_less_Suc)
      then have "length (takeWhile isnl (re_sub [I (Rep 3) (Lit NL)] (\<lambda>g. [NL, NL]) (dropWhile isnl cs)))
          = min 2 (length (takeWhile isnl (dropWhile isnl cs)))"
        using 1 by blast
      also have "takeWhile isnl (dropWhile isnl cs) = []"
        by (metis takeWhile_eq_Nil_iff hd_dropWhile)
      finally have "takeWhile isnl (re_sub [I (Rep 3) (Lit NL)] (\<lambda>g. [NL, NL]) (dropWhile isnl cs)) = []"
        by simp
      then show ?thesis using True Cons
        by (simp add: sub_nl3_Cons del: takeWhile.simps re_sub.simps) simp
    next
      case False
      have ih: "length (takeWhile isnl (re_sub [I (Rep 3) (Lit NL)] (\<lambda>g. [NL, NL]) cs))
          = min 2 (length (takeWhile isnl cs))"
        using 1 Cons by simp
      show ?thesis using False Cons ih
        by (simp add: sub_nl3_Cons del: takeWhile.simps re_sub.simps) (auto split: if_splits)
    qed
  qed
qed

lemma startswith_nl3: "startswith s [NL, NL, NL] \<Longrightarrow> 3 \<le> length (takeWhile isnl s)"
  by (auto simp: startswith_iff)

lemma sub_nl3_free:
  "\<not> contains (re_sub [I (Rep 3) (Lit NL)] (\<lambda>g. [NL, NL]) s) [NL, NL, NL]"
proof (induction s rule: length_induct)
  case (1 s)
  let ?f = "re_sub [I (Rep 3) (Lit NL)] (\<lambda>g. [NL, NL])"
  have run: "\<not> startswith (?f t) [NL, NL, NL]" for t
    using startswith_nl3 [of "?f t"] sub_nl3_run [of t] by auto
  show ?case
  proof (cases s)
    case Nil
    then show ?thesis by simp
  next
    case (Cons c cs)
    show ?thesis
    proof (cases "3 \<le> length (takeWhile isnl (c # cs))")
      case True
      let ?d = "dropWhile isnl cs"
      have eq: "?f s = NL # NL # ?f ?d" using True Cons by (simp add: sub_nl3_Cons del: takeWhile.simps re_sub.simps)
      have "length ?d < length s" using Cons
        by (simp add: length_dropWhile_le le_imp_less_Suc)
      then have a: "\<not> contains (?f ?d) [NL, NL, NL]" using 1 by blast
      have b: "takeWhile isnl (?f ?d) = []"
        using sub_nl3_run [of ?d] by (metis length_0_conv min_0R takeWhile_eq_Nil_iff hd_dropWhile)
      have "\<not> startswith (NL # ?f ?d) [NL, NL, NL]"
        using startswith_nl3 [of "NL # ?f ?d"] b by auto
      with a run [of s] eq show ?thesis by simp
    next
      case False
      then have eq: "?f s = c # ?f cs" using Cons by (simp add: sub_nl3_Cons del: takeWhile.simps re_sub.simps)
      have "\<not> contains (?f cs) [NL, NL, NL]" using 1 Cons by simp
      with run [of s] eq show ?thesis by simp
    qed
  qed
qed

lemma html_to_markdown_shape:
  "html_to_markdown html = [] \<or>
   (\<exists>x. html_to_markdown html = py_strip (re_sub [I (Rep 3) (Lit NL)] (\<lambda>g. [NL, NL]) x))"
  unfolding html_to_markdown_def Let_def by (cases "html = []") (simp, rule disjI2, simp, blast)

text \<open>
  C10: for every input, the output of \<open>html_to_markdown\<close> does not contain three consecutive
  newline characters, and it neither starts nor ends with a whitespace character (its leading
  and its trailing run of whitespace are empty).
\<close>

theorem html_to_markdown_normalized: 
  "\<not> contains (html_to_markdown html) [NL, NL, NL]
   \<and> takeWhile isspace (html_to_markdown html) = []
   \<and> takeWhile isspace (rev (html_to_markdown html)) = []"
proof (rule disjE [OF html_to_markdown_shape [of html]])
  assume "html_to_markdown html = []"
  then show ?thesis by simp
next
  assume "\<exists>x. html_to_markdown html = py_strip (re_sub [I (Rep 3) (Lit NL)] (\<lambda>g. [NL, NL]) x)"
  then obtain x where x: "html_to_markdown html = py_strip (re_sub [I (Rep 3) (Lit NL)] (\<lambda>g. [NL, NL]) x)"
    by blast
  have "\<not> contains (py_strip (re_sub [I (Rep 3) (Lit NL)] (\<lambda>g. [NL, NL]) x)) [NL, NL, NL]"
    using contains_strip sub_nl3_free by blast
  with x show ?thesis by (simp add: strip_leading strip_trailing)
qed

lemma rep_needs:
  assumes "\<And>s ns. rmatch ps s = Some ns \<Longrightarrow> d \<in> set s"
  shows "rmatch ((Rep n, a) # ps) s = Some ns \<Longrightarrow> d \<in> set s"
proof (induction s arbitrary: n ns)
  case Nil
  then show ?case using assms [of "[]"] by (auto split: if_splits)
next
  case (Cons c cs)
  from Cons.prems have
    "(\<exists>m. rmatch ((Rep (n - 1), a) # ps) cs = Some m) \<or> (\<exists>m. rmatch ps (c # cs) = Some m)"
    by (subst (asm) rmatch.simps) (auto simp del: rmatch.simps split: option.splits list.splits if_splits)
  then show ?case using Cons.IH assms [of "c # cs"] by auto
qed

lemma lazy_needs:
  assumes "\<And>s ns. rmatch ps s = Some ns \<Longrightarrow> d \<in> set s"
  shows "rmatch ((Lazy, a) # ps) s = Some ns \<Longrightarrow> d \<in> set s"
proof (induction s arbitrary: ns)
  case Nil
  then show ?case using assms [of "[]"] by (auto split: option.splits)
next
  case (Cons c cs)
  from Cons.prems have
    "(\<exists>m. rmatch ((Lazy, a) # ps) cs = Some m) \<or> (\<exists>m. rmatch ps (c # cs) = Some m)"
    by (subst (asm) rmatch.simps) (auto simp del: rmatch.simps split: option.splits list.splits if_splits)
  then show ?case using Cons.IH assms [of "c # cs"] by auto
qed

lemma rmatch_needs:
  "rmatch ps s = Some ns \<Longrightarrow> (Once, Lit d) \<in> set ps \<Longrightarrow> d \<in> set s"
proof (induction ps arbitrary: s ns)
  case Nil
  then show ?case by simp
next
  case (Cons x ps)
  obtain q a where x: "x = (q, a)" by (cases x)
  show ?case
  proof (cases "(Once, Lit d) \<in> set ps")
    case True
    then have ih: "\<And>s ns. rmatch ps s = Some ns \<Longrightarrow> d \<in> set s" using Cons.IH by blast
    show ?thesis
    proof (cases q)
      case Once
      then show ?thesis using Cons.prems(1) x by (auto split: list.splits if_splits dest: ih)
    next
      case Opt
      then show ?thesis using Cons.prems(1) x
        by (auto split: list.splits if_splits option.splits dest: ih)
    next
      case (Rep n)
      then have "rmatch ((Rep n, a) # ps) s = Some ns" using Cons.prems(1) x by simp
      then show ?thesis using ih by (rule rep_needs [rotated])
    next
      case Lazy
      then have "rmatch ((Lazy, a) # ps) s = Some ns" using Cons.prems(1) x by simp
      then show ?thesis using ih by (rule lazy_needs [rotated])
    qed
  next
    case False
    then have "x = (Once, Lit d)" using Cons.prems(2) by simp
    then show ?thesis using Cons.prems(1) by (auto split: list.splits if_splits)
  qed
qed

lemma rmatch_until:
  "rmatch [(Rep n, NoneOf [d]), (Once, Lit d)] u =
     (if n \<le> length (takeWhile (\<lambda>c. c \<noteq> d) u) \<and> length (takeWhile (\<lambda>c. c \<noteq> d) u) < length u
      then Some [length (takeWhile (\<lambda>c. c \<noteq> d) u), 1] else None)"
  by (induction u arbitrary: n) (auto split: option.splits list.splits)

lemma sub_unchanged:
  assumes "\<And>t. re_match p t \<noteq> None \<Longrightarrow> re_match any_tag t \<noteq> None"
  shows "\<not> re_search any_tag s \<Longrightarrow> re_sub p r s = s"
proof (induction s)
  case Nil
  then show ?case by simp
next
  case (Cons c cs)
  then have "re_match any_tag (c # cs) = None" by simp
  then have "re_match p (c # cs) = None" using assms by blast
  then show ?case using Cons by simp
qed

lemma any_tag_matches:
  assumes "c \<noteq> CHR ''>''" "CHR ''>'' \<in> set t"
  shows "re_match any_tag (CHR ''<'' # c # t) \<noteq> None"
proof -
  have "length (takeWhile (\<lambda>x. x \<noteq> CHR ''>'') t) < length t"
    using assms(2) by (induction t) auto
  then show ?thesis using assms(1)
    by (simp add: any_tag_def re_match_def rmatch_until del: rmatch.simps(4)) 
qed


lemma sub_tagged_unchanged:
  assumes "\<not> re_search any_tag s" "c \<noteq> CHR ''>''" "I Once (Lit CHR ''>'') \<in> set rest"
  shows "re_sub (I Once (Lit CHR ''<'') # I Once (Lit c) # rest) r s = s"
proof (rule sub_unchanged [OF _ assms(1)])
  fix t
  assume "re_match (I Once (Lit CHR ''<'') # I Once (Lit c) # rest) t \<noteq> None"
  then obtain ns where m: "rmatch ((Once, Lit CHR ''<'') # (Once, Lit c) # map qa rest) t = Some ns"
    by (auto simp: re_match_def simp del: rmatch.simps)
  then obtain u m where t: "t = CHR ''<'' # c # u" and u: "rmatch (map qa rest) u = Some m"
    by (auto split: list.splits if_splits)
  have "(Once, Lit CHR ''>'') \<in> set (map qa rest)"
    using assms(3) by force
  then have "CHR ''>'' \<in> set u" using rmatch_needs [OF u] by blast
  then show "re_match any_tag t \<noteq> None" using any_tag_matches assms(2) t by blast
qed

lemma sub_any_tag_unchanged: "\<not> re_search any_tag s \<Longrightarrow> re_sub any_tag r s = s"
  by (rule sub_unchanged) auto

lemma sub_nl3_unchanged:
  "\<not> contains s [NL, NL, NL] \<Longrightarrow> re_sub [I (Rep 3) (Lit NL)] r s = s"
proof (induction s)
  case Nil
  then show ?case by simp
next
  case (Cons c cs)
  have "\<not> 3 \<le> length (takeWhile isnl (c # cs))"
  proof
    assume "3 \<le> length (takeWhile isnl (c # cs))"
    then obtain x y z u where "takeWhile isnl (c # cs) = x # y # z # u"
      by (metis Suc_le_length_iff numeral_3_eq_3)
    moreover from this have "x = NL \<and> y = NL \<and> z = NL" 
      by (metis list.set_intros(1,2) set_takeWhileD)
    ultimately have "c # cs = [NL, NL, NL] @ u @ dropWhile isnl (c # cs)"
      by (metis append_Cons append_Nil takeWhile_dropWhile_id)
    then have "startswith (c # cs) [NL, NL, NL]" using startswith_iff by blast
    then show False using Cons.prems by simp
  qed
  then show ?case using Cons by (simp add: sub_nl3_Cons del: re_sub.simps takeWhile.simps)
qed

lemma strip_unchanged:
  assumes "takeWhile isspace s = []" "takeWhile isspace (rev s) = []"
  shows "py_strip s = s"
proof -
  have "dropWhile isspace s = s" using assms(1) by (metis append_Nil takeWhile_dropWhile_id)
  moreover have "dropWhile isspace (rev s) = rev s"
    using assms(2) by (metis append_Nil takeWhile_dropWhile_id)
  ultimately show ?thesis by (simp add: py_strip_def)
qed

text \<open>
  C5: \<open>html_to_markdown\<close> is a function of its input alone (equal inputs give equal
  outputs), and it returns unchanged every text that contains no tag (no match of the
  transcoder's own tag pattern \<open><[^>]+>\<close>) and is in the transcoder's output form: no three
  consecutive newlines, no leading and no trailing whitespace.
\<close>

theorem html_to_markdown_stable:
  "(\<forall>x y. x = y \<longrightarrow> html_to_markdown x = html_to_markdown y) \<and>
   (\<not> re_search any_tag s \<and> \<not> contains s [NL, NL, NL]
      \<and> takeWhile isspace s = [] \<and> takeWhile isspace (rev s) = []
    \<longrightarrow> html_to_markdown s = s)"
proof (intro conjI impI allI)
  fix x y :: string
  assume "x = y"
  then show "html_to_markdown x = html_to_markdown y" by simp
next
  assume a: "\<not> re_search any_tag s \<and> \<not> contains s [NL, NL, NL]
      \<and> takeWhile isspace s = [] \<and> takeWhile isspace (rev s) = []"
  then have 1: "\<not> re_search any_tag s" and 2: "\<not> contains s [NL, NL, NL]"
    and 3: "py_strip s = s" by (simp_all add: strip_unchanged)
  show "html_to_markdown s = s"
    unfolding html_to_markdown_def Let_def element_def lit_def
    using 1 2 3
    by (simp add: sub_tagged_unchanged sub_any_tag_unchanged sub_nl3_unchanged)
qed

theorem html_to_markdown_stable_witness:
  "\<not> re_search any_tag (''# Hi'' @ [NL] @ ''World'')
   \<and> \<not> contains (''# Hi'' @ [NL] @ ''World'') [NL, NL, NL]
   \<and> takeWhile isspace (''# Hi'' @ [NL] @ ''World'') = []
   \<and> takeWhile isspace (rev (''# Hi'' @ [NL] @ ''World'')) = []
   \<and> html_to_markdown (''# Hi'' @ [NL] @ ''World'') = ''# Hi'' @ [NL] @ ''World''"
proof -
  have h: "\<not> re_search any_tag (''# Hi'' @ [NL] @ ''World'')
   \<and> \<not> contains (''# Hi'' @ [NL] @ ''World'') [NL, NL, NL]
   \<and> takeWhile isspace (''# Hi'' @ [NL] @ ''World'') = []
   \<and> takeWhile isspace (rev (''# Hi'' @ [NL] @ ''World'')) = []"
    by (simp add: any_tag_def re_match_def isspace_def)
  then show ?thesis using html_to_markdown_stable [of "''# Hi'' @ [NL] @ ''World''"] by blast
qed

section \<open>The end-to-end scenario, evaluated\<close>

lemma transcode_scenario:
  "html_to_markdown ''<h1>Hi</h1><p>World</p>'' = ''# Hi'' @ [NL] @ ''World''"
  by (simp add: html_to_markdown_def element_def any_tag_def lit_def re_match_def isspace_def py_strip_def)

lemma scenario_result:
  "import_data e scenario_export 1 scenario_store =
     Inr (\<lparr>User_objects =
             [\<lparr>user_pk = 1, username = ''admin'', email = [], first_name = [], last_name = []\<rparr>],
           Tag_objects =
             [\<lparr>tag_pk = 1, tag_name = ''foo'', tag_slug = ''foo'', tag_wp_term_id = Some 5\<rparr>],
           Image_objects = [],
           Post_objects =
             [\<lparr>post_pk = 1, title = ''Hi'', slug = ''hi'',
               content_md = ''# Hi'' @ [NL] @ ''World'',
               content_html = render_markdown e (''# Hi'' @ [NL] @ ''World''),
               excerpt = [], status = PUBLISHED, author = 1, featured_image = None,
               tags = [1], published_at = Some 50, created_at = now e, updated_at = now e,
               wp_post_id = Some 1\<rparr>],
           Comment_objects =
             [\<lparr>comment_pk = 1, comment_post = 1, parent = None, author_name = ''A'',
               author_email = [], content = ''first'', comment_status = APPROVED,
               comment_created_at = 60, wp_comment_id = Some 10\<rparr>,
              \<lparr>comment_pk = 2, comment_post = 1, parent = Some 1, author_name = ''B'',
               author_email = [], content = ''reply'', comment_status = APPROVED,
               comment_created_at = 61, wp_comment_id = Some 11\<rparr>],
           next_user = 2, next_tag = 2, next_image = 1, next_post = 2, next_comment = 3\<rparr>,
          \<lparr>tags_created = 1, posts_created = 1, comments_created = 2\<rparr>)"
  by (simp add: import_data_def scenario_export_def scenario_store_def import_post_def
      Tag_get_or_create_def Tag_create_def Post_update_or_create_def Post_save_def Post_prepare_def
      Post_tags_add_def Comment_update_or_create_def Comment_set_created_at_def
      post_status_map_def comment_status_map_def transcode_scenario Let_def)

text \<open>
  C2 (as amended): for every clock and every renderer, the import of the scenario export
  into the store that holds the default author succeeds and leaves exactly one post, with
  source id 1, status published and the Markdown body \<open>"# Hi\nWorld"\<close> (one newline behind
  the heading, nothing behind \<open>World\<close>); exactly one tag, \<open>foo\<close>, created in this run and
  attached to the post; and exactly two comments of that post, 10 without a parent and 11
  with comment 10 as its parent.
\<close>

theorem scenario_import:
  "\<exists>st sts p t c10 c11.
     import_data e scenario_export 1 scenario_store = Inr (st, sts)
     \<and> Post_objects st = [p] \<and> wp_post_id p = Some 1 \<and> status p = PUBLISHED
     \<and> content_md p = ''# Hi'' @ [NL] @ ''World''
     \<and> Tag_objects st = [t] \<and> tag_slug t = ''foo'' \<and> tags_created sts = 1
     \<and> tags p = [tag_pk t]
     \<and> Comment_objects st = [c10, c11] \<and> comments_created sts = 2
     \<and> wp_comment_id c10 = Some 10 \<and> parent c10 = None \<and> comment_post c10 = post_pk p
     \<and> wp_comment_id c11 = Some 11 \<and> parent c11 = Some (comment_pk c10)
     \<and> comment_post c11 = post_pk p"
  using scenario_result [of e] by simp

text \<open>
  C2 as stated fails: the body stored for the scenario is not \<open>"# Hi\n\nWorld\n\n"\<close>. The
  heading rule appends one newline, and the transcoder strips its result.
\<close>

theorem scenario_body_counterexample:
  "stored_bodies (import_data scenario_env scenario_export 1 scenario_store)
     \<noteq> [''# Hi'' @ [NL, NL] @ ''World'' @ [NL, NL]]"
  using scenario_result [of scenario_env] by (simp add: stored_bodies_def)

section \<open>The media scripts: extraction and download\<close>

lemma add_urls_distinct: "distinct urls \<Longrightarrow> distinct (add_urls domain us urls)"
  by (induction us arbitrary: urls) auto

lemma add_urls_set:
  "set (add_urls domain us urls) =
     set urls \<union> {u \<in> set us. contains u domain \<or> startswith u ''/''}"
  by (induction us arbitrary: urls) auto

text \<open>
  C8 (as amended): whatever the order in which Python lists the set, \<open>extract_image_urls\<close>
  returns every matching URL exactly once: its result has no duplicates, and its elements are
  the first groups of the matches of the two patterns that contain the domain or start with
  a slash. Nothing is said about the order.
\<close>

theorem extract_image_urls_set:
  assumes "\<And>xs. distinct xs \<Longrightarrow> distinct (list_of xs) \<and> set (list_of xs) = set xs"
  shows "distinct (extract_image_urls list_of body domain)
         \<and> set (extract_image_urls list_of body domain) =
             {u \<in> set (finditer1 md_pattern body) \<union> set (finditer1 html_pattern body).
                contains u domain \<or> startswith u ''/''}"
proof -
  let ?urls = "add_urls domain (finditer1 html_pattern body)
                 (add_urls domain (finditer1 md_pattern body) [])"
  have d: "distinct ?urls" by (simp add: add_urls_distinct)
  have "set ?urls = {u \<in> set (finditer1 md_pattern body) \<union> set (finditer1 html_pattern body).
                contains u domain \<or> startswith u ''/''}"
    by (auto simp: add_urls_set)
  then show ?thesis using assms [OF d] by (simp add: extract_image_urls_def)
qed

lemma mixed_md: "finditer1 md_pattern mixed_body = [''/a.png'']"
  by (simp add: md_pattern_def mixed_body_def re_match_def)

lemma mixed_html: "finditer1 html_pattern mixed_body = [''/b.png'']"
  by (simp add: html_pattern_def mixed_body_def re_match_def lit_def)

theorem extract_image_urls_set_witness:
  "distinct (extract_image_urls rev mixed_body ''example.com'')
   \<and> set (extract_image_urls rev mixed_body ''example.com'') =
             {u \<in> set (finditer1 md_pattern mixed_body) \<union> set (finditer1 html_pattern mixed_body).
                contains u ''example.com'' \<or> startswith u ''/''}
   \<and> extract_image_urls rev mixed_body ''example.com'' = [''/b.png'', ''/a.png'']"
proof -
  have h: "\<And>xs::string list. distinct xs \<Longrightarrow> distinct (rev xs) \<and> set (rev xs) = set xs"
    by simp
  have "extract_image_urls rev mixed_body ''example.com'' = [''/b.png'', ''/a.png'']"
    by (simp add: extract_image_urls_def mixed_md mixed_html)
  then show ?thesis
    using extract_image_urls_set [of rev mixed_body "''example.com''", OF h] by blast
qed

text \<open>
  C8 as stated fails: the result is not in the order of first occurrence. The Markdown
  images are collected before the HTML images, so even if the set were listed in the order
  of insertion, \<open>/a.png\<close> comes before \<open>/b.png\<close> for a body in which \<open>/b.png\<close> (index 10)
  occurs before \<open>/a.png\<close> (index 24).
\<close>

theorem extract_image_urls_order_counterexample:
  "extract_image_urls (\<lambda>xs. xs) mixed_body ''example.com'' = [''/a.png'', ''/b.png'']
   \<and> py_find mixed_body ''/b.png'' = Some 10
   \<and> py_find mixed_body ''/a.png'' = Some 24"
  by (simp add: extract_image_urls_def mixed_md mixed_html) (simp add: mixed_body_def)

text \<open>
  C7: \<open>process_post_images\<close> does not look for an image that is already stored. For two
  posts whose bodies reference the same URL, \<open>main\<close> of \<open>download_images.py\<close> downloads the
  image twice and leaves two \<open>Image\<close> rows with the original name \<open>x.png\<close>, whatever the
  clock, the renderer, the bytes and the storage are. (A set of one URL is listed in one
  order only.)
\<close>

theorem same_image_stored_twice:
  "stored_images
     (download_images_main e
        \<lparr>download_image = (\<lambda>url base_url. Some (image_bytes, ''x.png'')),
         storage_name = sn, storage_url = su\<rparr>
        (\<lambda>xs. xs) ''d.example'' two_posts_store)
   = [''x.png'', ''x.png'']"
proof -
  have 1: "finditer1 md_pattern ''![a](https://d.example/x.png)'' = [''https://d.example/x.png'']"
    by (simp add: md_pattern_def re_match_def)
  have 2: "finditer1 html_pattern ''![a](https://d.example/x.png)'' = []"
    by (simp add: html_pattern_def re_match_def lit_def)
  have 3: "finditer1 md_pattern ''![b](https://d.example/x.png)'' = [''https://d.example/x.png'']"
    by (simp add: md_pattern_def re_match_def)
  have 4: "finditer1 html_pattern ''![b](https://d.example/x.png)'' = []"
    by (simp add: html_pattern_def re_match_def lit_def)
  have a: "extract_image_urls (\<lambda>xs. xs) ''![a](https://d.example/x.png)'' ''d.example''
      = [''https://d.example/x.png'']"
    unfolding extract_image_urls_def 1 2 by simp
  have b: "extract_image_urls (\<lambda>xs. xs) ''![b](https://d.example/x.png)'' ''d.example''
      = [''https://d.example/x.png'']"
    unfolding extract_image_urls_def 3 4 by simp
  show ?thesis
    by (simp add: download_images_main_def two_posts_store_def process_post_images_def
        a b Post_save_def Post_prepare_def stored_images_def Let_def)
qed

section \<open>The parser: status mapping\<close>

lemma parse_items_append:
  "parse_items sp (xs @ ys) =
     and_then (parse_items sp xs) (\<lambda>ps. and_then (parse_items sp ys) (\<lambda>qs. Inr (ps @ qs)))"
  by (induction xs) (auto simp: and_then_def split: sum.splits option.splits)

lemma parse_items_skip:
  "parse_item sp item = Inr None \<Longrightarrow>
     parse_items sp (before @ item # after) = parse_items sp (before @ after)"
  by (simp add: parse_items_append) (simp add: and_then_def split: sum.splits)

text \<open>
  C4: for an item of type post that has a status element: with the status \<open>publish\<close>,
  \<open>draft\<close> or \<open>future\<close> the item is not skipped, and the post parsed from it has the
  status \<open>published\<close>, \<open>draft\<close> or \<open>scheduled\<close>, which \<open>import_data\<close> stores as
  \<open>PUBLISHED\<close>, \<open>DRAFT\<close> or \<open>SCHEDULED\<close>; with any other status (an empty one too) the
  item is skipped without an exception, and the parse of a channel that contains it is the
  parse of the channel without it: the other items are parsed as before.
\<close>

theorem parse_posts_status:
  assumes "el_find item (WP ''post_type'') = Some ty" and "el_text ty = Some ''post''"
    and "el_find item (WP ''status'') = Some se"
  shows "(el_text se = Some ''publish'' \<longrightarrow>
            parse_item sp item \<noteq> Inr None
            \<and> (\<forall>p. parse_item sp item = Inr (Some p) \<longrightarrow>
                  wp_status p = ''published'' \<and> post_status_map (wp_status p) = PUBLISHED))
       \<and> (el_text se = Some ''draft'' \<longrightarrow>
            parse_item sp item \<noteq> Inr None
            \<and> (\<forall>p. parse_item sp item = Inr (Some p) \<longrightarrow>
                  wp_status p = ''draft'' \<and> post_status_map (wp_status p) = DRAFT))
       \<and> (el_text se = Some ''future'' \<longrightarrow>
            parse_item sp item \<noteq> Inr None
            \<and> (\<forall>p. parse_item sp item = Inr (Some p) \<longrightarrow>
                  wp_status p = ''scheduled'' \<and> post_status_map (wp_status p) = SCHEDULED))
       \<and> (el_text se \<noteq> Some ''publish'' \<and> el_text se \<noteq> Some ''draft''
            \<and> el_text se \<noteq> Some ''future'' \<and> el_tag item = ''item'' \<longrightarrow>
            parse_item sp item = Inr None
            \<and> parse_posts sp (Element t a x (before @ item # after))
                = parse_posts sp (Element t a x (before @ after)))"
proof (intro conjI impI)
  assume s: "el_text se = Some ''publish''"
  show "parse_item sp item \<noteq> Inr None"
    using assms s by (auto simp: parse_item_def find_text_def and_then_def Let_def split: sum.splits)
  show "\<forall>p. parse_item sp item = Inr (Some p) \<longrightarrow>
                  wp_status p = ''published'' \<and> post_status_map (wp_status p) = PUBLISHED"
    using assms s
    by (auto simp: parse_item_def find_text_def and_then_def Let_def post_status_map_def
        split: sum.splits)
next
  assume s: "el_text se = Some ''draft''"
  show "parse_item sp item \<noteq> Inr None"
    using assms s by (auto simp: parse_item_def find_text_def and_then_def Let_def split: sum.splits)
  show "\<forall>p. parse_item sp item = Inr (Some p) \<longrightarrow>
                  wp_status p = ''draft'' \<and> post_status_map (wp_status p) = DRAFT"
    using assms s
    by (auto simp: parse_item_def find_text_def and_then_def Let_def post_status_map_def
        split: sum.splits)
next
  assume s: "el_text se = Some ''future''"
  show "parse_item sp item \<noteq> Inr None"
    using assms s by (auto simp: parse_item_def find_text_def and_then_def Let_def split: sum.splits)
  show "\<forall>p. parse_item sp item = Inr (Some p) \<longrightarrow>
                  wp_status p = ''scheduled'' \<and> post_status_map (wp_status p) = SCHEDULED"
    using assms s
    by (auto simp: parse_item_def find_text_def and_then_def Let_def post_status_map_def
        split: sum.splits)
next
  assume s: "el_text se \<noteq> Some ''publish'' \<and> el_text se \<noteq> Some ''draft''
            \<and> el_text se \<noteq> Some ''future'' \<and> el_tag item = ''item''"
  show skip: "parse_item sp item = Inr None"
    using assms s by (simp add: parse_item_def find_text_def and_then_def)
  show "parse_posts sp (Element t a x (before @ item # after))
                = parse_posts sp (Element t a x (before @ after))"
    using s parse_items_skip [OF skip] by (simp add: parse_posts_def el_findall_def)
qed


theorem parse_posts_status_witness:
  "parse_item (\<lambda>s f. None) (post_item ''2'' ''trash'') = Inr None
   \<and> parse_posts (\<lambda>s f. None)
        (Element ''channel'' [] None
           ([post_item ''1'' ''publish''] @ post_item ''2'' ''trash'' # [post_item ''3'' ''future'']))
      = parse_posts (\<lambda>s f. None)
          (Element ''channel'' [] None ([post_item ''1'' ''publish''] @ [post_item ''3'' ''future'']))
   \<and> (\<exists>ps. parse_posts (\<lambda>s f. None)
          (Element ''channel'' [] None ([post_item ''1'' ''publish''] @ [post_item ''3'' ''future'']))
          = Inr ps \<and> map wp_id ps = [1, 3] \<and> map wp_status ps = [''published'', ''scheduled''])
   \<and> (\<exists>p. parse_item (\<lambda>s f. None) (post_item ''1'' ''publish'') = Inr (Some p)
          \<and> wp_status p = ''published'' \<and> post_status_map (wp_status p) = PUBLISHED)"
proof -
  let ?sp = "\<lambda>(s::string) (f::string). None :: datetime option"
  have f1: "el_find (post_item pid st) (WP ''post_type'')
              = Some (Element (WP ''post_type'') [] (Some ''post'') [])" for pid st
    by (simp add: post_item_def el_find_def WP_def DC_def CONTENT_def)
  have f2: "el_find (post_item pid st) (WP ''status'')
              = Some (Element (WP ''status'') [] (Some st) [])" for pid st
    by (simp add: post_item_def el_find_def WP_def DC_def CONTENT_def)
  have t: "el_tag (post_item ''2'' ''trash'') = ''item''" by (simp add: post_item_def)
  note trash = parse_posts_status [OF f1 [of "''2''" "''trash''"] _ f2 [of "''2''" "''trash''"],
      of ?sp "''channel''" "[]" None "[post_item ''1'' ''publish'']" "[post_item ''3'' ''future'']"]
  note publish = parse_posts_status [OF f1 [of "''1''" "''publish''"] _ f2 [of "''1''" "''publish''"],
      of ?sp]
  have a: "parse_item ?sp (post_item ''2'' ''trash'') = Inr None
     \<and> parse_posts ?sp
        (Element ''channel'' [] None
           ([post_item ''1'' ''publish''] @ post_item ''2'' ''trash'' # [post_item ''3'' ''future'']))
      = parse_posts ?sp
          (Element ''channel'' [] None ([post_item ''1'' ''publish''] @ [post_item ''3'' ''future'']))"
    using trash t by simp
  have b: "\<exists>ps. parse_posts ?sp
          (Element ''channel'' [] None ([post_item ''1'' ''publish''] @ [post_item ''3'' ''future'']))
          = Inr ps \<and> map wp_id ps = [1, 3] \<and> map wp_status ps = [''published'', ''scheduled'']"
    by (simp add: parse_posts_def el_findall_def post_item_def parse_item_def el_find_def
        find_text_def and_then_def WP_def DC_def CONTENT_def EXCERPT_def el_get_def
        int_of_text_def py_int_def py_strip_def isspace_def digit_val_def text_or_def)
  have "\<exists>p. parse_item ?sp (post_item ''1'' ''publish'') = Inr (Some p)"
    by (simp add: post_item_def parse_item_def el_find_def
        find_text_def and_then_def WP_def DC_def CONTENT_def EXCERPT_def el_get_def el_findall_def
        int_of_text_def py_int_def py_strip_def isspace_def digit_val_def text_or_def)
  then have c: "\<exists>p. parse_item ?sp (post_item ''1'' ''publish'') = Inr (Some p)
          \<and> wp_status p = ''published'' \<and> post_status_map (wp_status p) = PUBLISHED"
    using publish by auto
  from a b c show ?thesis by blast
qed

section \<open>Tags are only ever added\<close>

lemma keeps_tags_iff:
  "keeps_tags st st' \<longleftrightarrow>
     (\<forall>p \<in> set (Post_objects st). \<exists>p' \<in> set (Post_objects st').
         post_pk p' = post_pk p \<and> set (tags p) \<subseteq> set (tags p'))
     \<and> set (Tag_objects st) \<subseteq> set (Tag_objects st')"
  by (simp add: keeps_tags_def list_all_iff list_ex_iff)

lemma keeps_tags_refl: "keeps_tags st st"
  by (auto simp: keeps_tags_iff)

lemma keeps_tags_trans:
  assumes "keeps_tags a b" "keeps_tags b c"
  shows "keeps_tags a c"
  unfolding keeps_tags_iff
proof (intro conjI ballI)
  fix p assume "p \<in> set (Post_objects a)"
  then obtain q where q: "q \<in> set (Post_objects b)" "post_pk q = post_pk p"
      "set (tags p) \<subseteq> set (tags q)"
    using assms(1) unfolding keeps_tags_iff by blast
  then obtain r where "r \<in> set (Post_objects c)" "post_pk r = post_pk q"
      "set (tags q) \<subseteq> set (tags r)"
    using assms(2) unfolding keeps_tags_iff by blast
  with q show "\<exists>p'\<in>set (Post_objects c). post_pk p' = post_pk p \<and> set (tags p) \<subseteq> set (tags p')"
    by auto
next
  show "set (Tag_objects a) \<subseteq> set (Tag_objects c)"
    using assms unfolding keeps_tags_iff by blast
qed

lemma keeps_tags_map:
  assumes "\<And>p. post_pk (f p) = post_pk p \<and> set (tags p) \<subseteq> set (tags (f p))"
    and "Post_objects st' = map f (Post_objects st) @ new"
    and "set (Tag_objects st) \<subseteq> set (Tag_objects st')"
  shows "keeps_tags st st'"
  unfolding keeps_tags_iff
proof (intro conjI ballI)
  fix p assume "p \<in> set (Post_objects st)"
  then have "f p \<in> set (Post_objects st')" using assms(2) by simp
  then show "\<exists>p'\<in>set (Post_objects st'). post_pk p' = post_pk p \<and> set (tags p) \<subseteq> set (tags p')"
    using assms(1) by blast
qed (rule assms(3))

lemma keeps_tags_same:
  "Post_objects st' = Post_objects st \<Longrightarrow> set (Tag_objects st) \<subseteq> set (Tag_objects st')
     \<Longrightarrow> keeps_tags st st'"
  by (auto simp: keeps_tags_iff)

lemma User_get_or_create_keeps:
  "User_get_or_create st u m f l = Inr (st', r) \<Longrightarrow> keeps_tags st st'"
  by (auto simp: User_get_or_create_def intro!: keeps_tags_same
      split: list.splits option.splits)

lemma Tag_get_or_create_keeps:
  "Tag_get_or_create e st s n t = Inr (st', r) \<Longrightarrow> keeps_tags st st'"
  by (auto simp: Tag_get_or_create_def Tag_create_def Let_def intro!: keeps_tags_same
      split: list.splits option.splits sum.splits if_splits)

lemma Post_save_Inr:
  assumes "Post_save e st pk obj = Inr (st', r)"
  shows "(pk = None \<and> r = next_post st
          \<and> st' = st\<lparr>Post_objects := Post_objects st @
                      [(Post_prepare e st pk obj)\<lparr>post_pk := next_post st, created_at := now e,
                          updated_at := now e\<rparr>],
                    next_post := Suc (next_post st)\<rparr>)
       \<or> (pk = Some r
          \<and> st' = st\<lparr>Post_objects :=
                      map (\<lambda>p. if post_pk p = r
                                then (Post_prepare e st pk obj)\<lparr>post_pk := r, updated_at := now e,
                                        tags := tags p\<rparr>
                                else p)
                          (Post_objects st)\<rparr>)"
  using assms by (auto simp: Post_save_def Let_def split: if_splits option.splits)

lemma Post_save_keeps:
  assumes "Post_save e st pk obj = Inr (st', r)"
  shows "keeps_tags st st'"
  using Post_save_Inr [OF assms]
proof (elim disjE conjE)
  assume "st' = st\<lparr>Post_objects := Post_objects st @
                      [(Post_prepare e st pk obj)\<lparr>post_pk := next_post st, created_at := now e,
                          updated_at := now e\<rparr>],
                    next_post := Suc (next_post st)\<rparr>"
  then show ?thesis by (intro keeps_tags_map [where f = "\<lambda>p. p"]) auto
next
  assume "st' = st\<lparr>Post_objects :=
                      map (\<lambda>p. if post_pk p = r
                                then (Post_prepare e st pk obj)\<lparr>post_pk := r, updated_at := now e,
                                        tags := tags p\<rparr>
                                else p)
                          (Post_objects st)\<rparr>"
  then show ?thesis
    by (intro keeps_tags_map [where new = "[]" and f = "\<lambda>p. if post_pk p = r
                                then (Post_prepare e st pk obj)\<lparr>post_pk := r, updated_at := now e,
                                        tags := tags p\<rparr>
                                else p"]) auto
qed

lemma Post_update_or_create_keeps:
  "Post_update_or_create e st wid ttl sl md exc stat auth pub = Inr (st', r) \<Longrightarrow> keeps_tags st st'"
  by (auto simp: Post_update_or_create_def split: list.splits sum.splits dest: Post_save_keeps)

lemma Post_tags_add_keeps: "keeps_tags st (Post_tags_add st k t)"
  by (rule keeps_tags_map [where new = "[]" and f = "\<lambda>p. if post_pk p = k \<and> t \<notin> set (tags p)
        then p\<lparr>tags := tags p @ [t]\<rparr> else p"])
     (auto simp: Post_tags_add_def)

lemma add_tags_keeps: "keeps_tags st (add_tags tag_map post ss st)"
proof (induction ss arbitrary: st)
  case Nil
  then show ?case by (simp add: keeps_tags_refl)
next
  case (Cons s ss)
  show ?case
  proof (cases "tag_map s")
    case None
    then show ?thesis using Cons [of st] by simp
  next
    case (Some t)
    then show ?thesis
      using Cons [of "Post_tags_add st post t"] Post_tags_add_keeps [of st post t]
      by (auto intro: keeps_tags_trans)
  qed
qed

lemma Comment_update_or_create_keeps:
  "Comment_update_or_create e st wid pst par nm mail txt stat = Inr (st', r) \<Longrightarrow> keeps_tags st st'"
  by (auto simp: Comment_update_or_create_def intro!: keeps_tags_same split: list.splits)

lemma Comment_set_created_at_keeps: "keeps_tags st (Comment_set_created_at st k t)"
  by (auto simp: Comment_set_created_at_def intro!: keeps_tags_same)

lemma import_comments_keeps:
  "import_comments e post cs st cmap n = Inr (st', r) \<Longrightarrow> keeps_tags st st'"
proof (induction cs arbitrary: st cmap n)
  case Nil
  then show ?case by (simp add: keeps_tags_refl)
next
  case (Cons c cs)
  from Cons.prems obtain st1 pk created where
    1: "Comment_update_or_create e st (wc_id c) post
          (if wc_parent c \<noteq> 0 then cmap (wc_parent c) else None) (wc_author_name c)
          (wc_author_email c) (wc_content c) (comment_status_map (wc_status c))
        = Inr (st1, pk, created)"
    and 2: "import_comments e post cs
          (case wc_created_at c of None \<Rightarrow> st1
           | Some t \<Rightarrow> if created then Comment_set_created_at st1 pk t else st1)
          (cmap(wc_id c \<mapsto> pk)) (if created then Suc n else n) = Inr (st', r)"
    by (auto simp: Let_def split: sum.splits)
  have a: "keeps_tags st st1" using 1 by (rule Comment_update_or_create_keeps)
  have b: "keeps_tags st1 (case wc_created_at c of None \<Rightarrow> st1
           | Some t \<Rightarrow> if created then Comment_set_created_at st1 pk t else st1)"
    by (auto simp: keeps_tags_refl Comment_set_created_at_keeps split: option.splits)
  have c: "keeps_tags (case wc_created_at c of None \<Rightarrow> st1
           | Some t \<Rightarrow> if created then Comment_set_created_at st1 pk t else st1) st'"
    using 2 by (rule Cons.IH)
  from a b c show ?case by (blast intro: keeps_tags_trans)
qed

lemma import_post_keeps:
  "import_post e d authors tag_map w st sts = Inr (st', sts') \<Longrightarrow> keeps_tags st st'"
proof -
  assume a: "import_post e d authors tag_map w st sts = Inr (st', sts')"
  then obtain st1 post created r where
    1: "Post_update_or_create e st (wp_id w) (wp_title w)
          (case wp_slug w of None \<Rightarrow> slugify e (wp_title w)
           | Some s \<Rightarrow> if s = [] then slugify e (wp_title w) else s)
          (html_to_markdown (wp_content w)) (wp_excerpt w) (post_status_map (wp_status w))
          (case authors (wp_author w) of None \<Rightarrow> d | Some u \<Rightarrow> u) (wp_published_at w)
        = Inr (st1, post, created)"
    and 2: "import_comments e post (sort_key wc_id (wp_comments w))
          (add_tags tag_map post (wp_tags w) st1) Map.empty
          (comments_created (if created then sts\<lparr>posts_created := Suc (posts_created sts)\<rparr> else sts))
        = Inr (st', r)"
    by (auto simp: import_post_def Let_def split: sum.splits)
  from 1 have "keeps_tags st st1" by (rule Post_update_or_create_keeps)
  moreover have "keeps_tags st1 (add_tags tag_map post (wp_tags w) st1)" by (rule add_tags_keeps)
  moreover from 2 have "keeps_tags (add_tags tag_map post (wp_tags w) st1) st'"
    by (rule import_comments_keeps)
  ultimately show ?thesis by (blast intro: keeps_tags_trans)
qed

lemma import_posts_keeps:
  "import_posts e d authors tag_map ws st sts = Inr (st', sts') \<Longrightarrow> keeps_tags st st'"
proof (induction ws arbitrary: st sts)
  case Nil
  then show ?case by (simp add: keeps_tags_refl)
next
  case (Cons w ws)
  then obtain st1 sts1 where 1: "import_post e d authors tag_map w st sts = Inr (st1, sts1)"
    and 2: "import_posts e d authors tag_map ws st1 sts1 = Inr (st', sts')"
    by (auto split: sum.splits)
  show ?case using import_post_keeps [OF 1] Cons.IH [OF 2] by (rule keeps_tags_trans)
qed

lemma import_authors_keeps:
  "import_authors as st m = Inr (st', m') \<Longrightarrow> keeps_tags st st'"
proof (induction as arbitrary: st m)
  case Nil
  then show ?case by (simp add: keeps_tags_refl)
next
  case (Cons a as)
  then obtain fn ln st1 u c where
    1: "User_get_or_create st (wa_login a) (wa_email a) fn ln = Inr (st1, u, c)"
    and 2: "import_authors as st1 (m(wa_login a \<mapsto> u)) = Inr (st', m')"
    by (auto split: sum.splits)
  show ?case using User_get_or_create_keeps [OF 1] Cons.IH [OF 2] by (rule keeps_tags_trans)
qed

lemma import_tags_keeps:
  "import_tags e ts st m n = Inr (st', r) \<Longrightarrow> keeps_tags st st'"
proof (induction ts arbitrary: st m n)
  case Nil
  then show ?case by (simp add: keeps_tags_refl)
next
  case (Cons t ts)
  then obtain st1 k c where
    1: "Tag_get_or_create e st (wt_slug t) (wt_name t) (wt_term_id t) = Inr (st1, k, c)"
    and 2: "import_tags e ts st1 (m(wt_slug t \<mapsto> k)) (if c then Suc n else n) = Inr (st', r)"
    by (auto split: sum.splits)
  show ?case using Tag_get_or_create_keeps [OF 1] Cons.IH [OF 2] by (rule keeps_tags_trans)
qed

lemma import_data_keeps:
  assumes "import_data e data d st = Inr (st', sts)"
  shows "keeps_tags st st'"
proof -
  from assms obtain st1 authors st2 tag_map n where
    1: "import_authors (d_authors data) st Map.empty = Inr (st1, authors)"
    and 2: "import_tags e (d_tags data) st1 Map.empty 0 = Inr (st2, tag_map, n)"
    and 3: "import_posts e d authors tag_map (d_posts data) st2
              \<lparr>tags_created = n, posts_created = 0, comments_created = 0\<rparr> = Inr (st', sts)"
    by (auto simp: import_data_def split: sum.splits)
  show ?thesis
    using import_authors_keeps [OF 1] import_tags_keeps [OF 2] import_posts_keeps [OF 3]
    by (blast intro: keeps_tags_trans)
qed


text \<open>
  C6: whatever the export lists, a successful import removes no tag from a post: every post
  of the store before the import is still there under its primary key, with every tag that
  was attached to it, and every tag row is still there.
\<close>

theorem import_keeps_tags:
  assumes "import_data e data d st = Inr (st', sts)"
    and "p \<in> set (Post_objects st)" and "t \<in> set (tags p)"
  shows "(\<exists>p' \<in> set (Post_objects st'). post_pk p' = post_pk p \<and> t \<in> set (tags p'))
         \<and> set (Tag_objects st) \<subseteq> set (Tag_objects st')"
  using import_data_keeps [OF assms(1)] assms(2,3) unfolding keeps_tags_iff by blast

lemma reimport_hand_tagged:
  "import_data scenario_env scenario_export 1 hand_tagged_store =
     Inr (hand_tagged_store\<lparr>Post_objects :=
            [hand_tagged_post\<lparr>content_html := ''# Hi'' @ [NL] @ ''World''\<rparr>]\<rparr>,
          \<lparr>tags_created = 0, posts_created = 0, comments_created = 0\<rparr>)"
  by (simp add: import_data_def scenario_export_def hand_tagged_store_def hand_tagged_post_def
      scenario_env_def import_post_def
      Tag_get_or_create_def Tag_create_def Post_update_or_create_def Post_save_def Post_prepare_def
      Post_tags_add_def Comment_update_or_create_def Comment_set_created_at_def
      post_status_map_def comment_status_map_def transcode_scenario Let_def)

theorem import_keeps_tags_witness:
  "import_data scenario_env scenario_export 1 hand_tagged_store =
     Inr (hand_tagged_store\<lparr>Post_objects :=
            [hand_tagged_post\<lparr>content_html := ''# Hi'' @ [NL] @ ''World''\<rparr>]\<rparr>,
          \<lparr>tags_created = 0, posts_created = 0, comments_created = 0\<rparr>)
   \<and> hand_tagged_post \<in> set (Post_objects hand_tagged_store)
   \<and> 2 \<in> set (tags hand_tagged_post)
   \<and> (\<exists>p' \<in> set (Post_objects (hand_tagged_store\<lparr>Post_objects :=
            [hand_tagged_post\<lparr>content_html := ''# Hi'' @ [NL] @ ''World''\<rparr>]\<rparr>)).
          post_pk p' = post_pk hand_tagged_post \<and> 2 \<in> set (tags p'))"
proof -
  have a: "hand_tagged_post \<in> set (Post_objects hand_tagged_store)"
    by (simp add: hand_tagged_store_def)
  have b: "2 \<in> set (tags hand_tagged_post)" by (simp add: hand_tagged_post_def)
  from import_keeps_tags [OF reimport_hand_tagged a b] reimport_hand_tagged a b
  show ?thesis by blast
qed

section \<open>Rows and keys\<close>


lemma map_upd_pk_id:
  assumes "distinct (map pk xs)" "r \<in> set xs"
  shows "map (\<lambda>x. if pk x = pk r then r else x) xs = xs"
proof -
  have "\<And>x. x \<in> set xs \<Longrightarrow> (if pk x = pk r then r else x) = x"
    using assms by (auto simp: distinct_map inj_on_def)
  then show ?thesis by (simp add: map_idI)
qed

lemma filter_single_mem: "filter P xs = [r] \<Longrightarrow> r \<in> set xs \<and> P r"
  by (metis list.set_intros(1) mem_Collect_eq set_filter)

lemma comment_of_SomeD:
  "comment_of st i = Some r \<Longrightarrow>
     filter (\<lambda>x. wp_comment_id x = Some i) (Comment_objects st) = [r]"
  by (auto simp: comment_of_def split: list.splits)

lemma comment_of_mem:
  "comment_of st i = Some r \<Longrightarrow> r \<in> set (Comment_objects st) \<and> wp_comment_id r = Some i"
  using comment_of_SomeD filter_single_mem by fastforce


section \<open>One comment\<close>




section \<open>The loop over the comments of a post\<close>


lemma comment_of_cong:
  "filter (\<lambda>x. wp_comment_id x = Some i) (Comment_objects s')
     = filter (\<lambda>x. wp_comment_id x = Some i) (Comment_objects s)
   \<Longrightarrow> comment_of s' i = comment_of s i"
  by (simp add: comment_of_def)

lemma comments_done_cong:
  assumes "\<And>c. c \<in> set cs \<Longrightarrow>
             filter (\<lambda>x. wp_comment_id x = Some (wc_id c)) (Comment_objects s')
               = filter (\<lambda>x. wp_comment_id x = Some (wc_id c)) (Comment_objects s)"
  shows "comments_done post cs cmap s' = comments_done post cs cmap s"
  using assms
proof (induction cs arbitrary: cmap)
  case Nil
  then show ?case by simp
next
  case (Cons c cs)
  have "comment_of s' (wc_id c) = comment_of s (wc_id c)"
    by (rule comment_of_cong) (simp add: Cons.prems)
  moreover have "comments_done post cs m s' = comments_done post cs m s" for m
    by (rule Cons.IH) (simp add: Cons.prems)
  ultimately show ?case by (simp split: option.splits)
qed



lemma Comment_update_or_create_fix:
  assumes "comment_of s i = Some r" and "wf_store s"
    and "comment_post r = pst" "parent r = par" "author_name r = nm" "author_email r = mail"
      "content r = txt" "comment_status r = stat"
  shows "Comment_update_or_create e s i pst par nm mail txt stat = Inr (s, comment_pk r, False)"
proof -
  have f: "filter (\<lambda>x. wp_comment_id x = Some i) (Comment_objects s) = [r]"
    using assms(1) by (rule comment_of_SomeD)
  have r: "r \<in> set (Comment_objects s)" using filter_single_mem [OF f] by simp
  have d: "distinct (map comment_pk (Comment_objects s))" using assms(2) by (simp add: wf_store_def)
  have eq: "r\<lparr>comment_post := pst, parent := par, author_name := nm, author_email := mail,
           content := txt, comment_status := stat\<rparr> = r"
    using assms(3-8) by simp
  have "map (\<lambda>x. if comment_pk x = comment_pk r
                 then r\<lparr>comment_post := pst, parent := par, author_name := nm,
                        author_email := mail, content := txt, comment_status := stat\<rparr>
                 else x) (Comment_objects s) = Comment_objects s"
    by (subst eq) (rule map_upd_pk_id [OF d r])
  then show ?thesis by (simp add: Comment_update_or_create_def f)
qed

lemma import_comments_fix:
  assumes "comments_done post cs cmap s" and "wf_store s"
  shows "\<exists>cmap'. import_comments e post cs s cmap n = Inr (s, cmap', n)"
  using assms(1)
proof (induction cs arbitrary: cmap)
  case Nil
  then show ?case by simp
next
  case (Cons c cs)
  from Cons.prems obtain r where r: "comment_of s (wc_id c) = Some r"
    and fields: "comment_post r = post"
      "parent r = (if wc_parent c \<noteq> 0 then cmap (wc_parent c) else None)"
      "author_name r = wc_author_name c" "author_email r = wc_author_email c"
      "content r = wc_content c" "comment_status r = comment_status_map (wc_status c)"
    and rest: "comments_done post cs (cmap(wc_id c \<mapsto> comment_pk r)) s"
    by (auto split: option.splits)
  have 1: "Comment_update_or_create e s (wc_id c) post
       (if wc_parent c \<noteq> 0 then cmap (wc_parent c) else None) (wc_author_name c)
       (wc_author_email c) (wc_content c) (comment_status_map (wc_status c))
     = Inr (s, comment_pk r, False)"
    by (rule Comment_update_or_create_fix [OF r assms(2) fields])
  from Cons.IH [OF rest] obtain cmap' where
    "import_comments e post cs s (cmap(wc_id c \<mapsto> comment_pk r)) n = Inr (s, cmap', n)"
    by blast
  then show ?case using 1 by (auto simp: Let_def split: option.splits)
qed




section \<open>One post row\<close>

lemma post_of_SomeD:
  "post_of st i = Some p \<Longrightarrow> filter (\<lambda>x. wp_post_id x = Some i) (Post_objects st) = [p]"
  by (auto simp: post_of_def split: list.splits)

lemma post_of_mem:
  "post_of st i = Some p \<Longrightarrow> p \<in> set (Post_objects st) \<and> wp_post_id p = Some i"
  using post_of_SomeD filter_single_mem by fastforce

lemma post_of_cong:
  "filter (\<lambda>x. wp_post_id x = Some i) (Post_objects s')
     = filter (\<lambda>x. wp_post_id x = Some i) (Post_objects s)
   \<Longrightarrow> post_of s' i = post_of s i"
  by (simp add: post_of_def)






section \<open>Attaching the tags\<close>




lemma fold_tags_fix:
  assumes "\<And>s tg. F s tg = (case tag_map s of None \<Rightarrow> tg
                          | Some t \<Rightarrow> if t \<in> set tg then tg else tg @ [t])"
  shows "list_all (\<lambda>s. case tag_map s of None \<Rightarrow> True | Some t \<Rightarrow> t \<in> set tg) ss \<Longrightarrow>
     fold F ss tg = tg"
proof (induction ss)
  case Nil
  then show ?case by simp
next
  case (Cons a ss)
  then have "F a tg = tg" by (auto simp: assms split: option.splits)
  then show ?case using Cons by simp
qed



section \<open>One post of the export\<close>




section \<open>The parents of the comments\<close>






end
